theory Spec2Isabelle
  imports
    Main
    "HOL-Library.AList"
    "HOL-Library.Char_ord"
    "HOL-Library.List_Lexorder"
    "HOL-Library.Product_Lexorder"
begin

section \<open>The sorted-set store\<close>

text \<open>
  MarQS keeps all of its state in Redis. The scripts of
  \<^verbatim>\<open>apps/webapp/app/v3/marqs/index.server.ts\<close> use three kinds of value:
  strings (message bodies and concurrency limits), sorted sets (child queues, parent
  queues, the visibility-timeout queue) and sets (the current-concurrency sets). The
  store has one name space per kind: a key is used at one kind only, so that no command
  meets a value of the wrong kind.

  A sorted set is an association list from member to score, in which \<^verbatim>\<open>ZADD\<close> and
  \<^verbatim>\<open>ZREM\<close> keep each member once. Scores are the integer millisecond timestamps the
  broker writes. Redis orders a sorted set by score and, for equal scores, by the bytes
  of the member.
\<close>

type_synonym key = string
type_synonym zset = "(string \<times> int) list"

record store =
  strings :: "key \<Rightarrow> string option"
  zsets :: "key \<Rightarrow> zset"
  sets :: "key \<Rightarrow> string set"

definition GET :: "key \<Rightarrow> store \<Rightarrow> string option" where
  "GET k s = strings s k"

definition SET :: "key \<Rightarrow> string \<Rightarrow> store \<Rightarrow> store" where
  "SET k v s = s\<lparr>strings := (strings s)(k \<mapsto> v)\<rparr>"

text \<open>\<^verbatim>\<open>DEL\<close> removes the key whatever its kind.\<close>

definition DEL :: "key \<Rightarrow> store \<Rightarrow> store" where
  "DEL k s = s\<lparr>strings := (strings s)(k := None),
               zsets := (zsets s)(k := []),
               sets := (sets s)(k := {})\<rparr>"

definition ZSCORE :: "key \<Rightarrow> string \<Rightarrow> store \<Rightarrow> int option" where
  "ZSCORE k m s = map_of (zsets s k) m"

definition ZADD :: "key \<Rightarrow> int \<Rightarrow> string \<Rightarrow> store \<Rightarrow> store" where
  "ZADD k sc m s = s\<lparr>zsets := (zsets s)(k := AList.update m sc (zsets s k))\<rparr>"

definition ZREM :: "key \<Rightarrow> string \<Rightarrow> store \<Rightarrow> store" where
  "ZREM k m s = s\<lparr>zsets := (zsets s)(k := AList.delete m (zsets s k))\<rparr>"

text \<open>The members in the order of the sorted set: by score, then by member.\<close>

definition zsorted :: "zset \<Rightarrow> zset" where
  "zsorted z = sort_key (\<lambda>(m, sc). (sc, m)) z"

text \<open>\<^verbatim>\<open>ZRANGE key start stop WITHSCORES\<close>, for the non-negative ranks the scripts use.\<close>

definition ZRANGE :: "key \<Rightarrow> nat \<Rightarrow> nat \<Rightarrow> store \<Rightarrow> zset" where
  "ZRANGE k start stop s = take (Suc stop - start) (drop start (zsorted (zsets s k)))"

text \<open>
  \<^verbatim>\<open>ZRANGEBYSCORE key min max WITHSCORES LIMIT offset count\<close>; the lower bound
  \<open>None\<close> is \<^verbatim>\<open>-inf\<close>.
\<close>

definition ZRANGEBYSCORE :: "key \<Rightarrow> int option \<Rightarrow> int \<Rightarrow> nat \<Rightarrow> nat \<Rightarrow> store \<Rightarrow> zset" where
  "ZRANGEBYSCORE k lo hi off cnt s =
     take cnt (drop off
       (filter (\<lambda>(m, sc). (case lo of None \<Rightarrow> True | Some l \<Rightarrow> l \<le> sc) \<and> sc \<le> hi)
         (zsorted (zsets s k))))"

definition SCARD :: "key \<Rightarrow> store \<Rightarrow> int" where
  "SCARD k s = int (card (sets s k))"

definition SADD :: "key \<Rightarrow> string \<Rightarrow> store \<Rightarrow> store" where
  "SADD k m s = s\<lparr>sets := (sets s)(k := insert m (sets s k))\<rparr>"

definition SREM :: "key \<Rightarrow> string \<Rightarrow> store \<Rightarrow> store" where
  "SREM k m s = s\<lparr>sets := (sets s)(k := sets s k - {m})\<rparr>"

section \<open>The scripts\<close>

text \<open>
  A script runs as one atomic unit: it is a function from store to store. The only
  run-time error a script of this file can raise on this store is the comparison of a
  number with \<^verbatim>\<open>nil\<close> in \<^verbatim>\<open>dequeueMessage\<close>, when a limit key holds a string
  that \<^verbatim>\<open>tonumber\<close> rejects. \<^verbatim>\<open>tonumber\<close> is Lua's; it is a parameter here.
\<close>

datatype error = LuaCompareNil | JsonSyntaxError

text \<open>
  Every script that changes a child queue ends with the same lines, under the comment
  \<^verbatim>\<open>-- Rebalance the parent queue\<close>: read the earliest member of the child and
  remove the child from the parent or set its score there.
\<close>

definition rebalanceParentQueue :: "key \<Rightarrow> key \<Rightarrow> string \<Rightarrow> store \<Rightarrow> store" where
  "rebalanceParentQueue queue parentQueue queueName s =
     (case ZRANGE queue 0 0 s of
        [] \<Rightarrow> ZREM parentQueue queueName s
      | earliestMessage # _ \<Rightarrow> ZADD parentQueue (snd earliestMessage) queueName s)"

definition enqueueMessage_lua ::
  "key \<Rightarrow> key \<Rightarrow> key \<Rightarrow> string \<Rightarrow> string \<Rightarrow> string \<Rightarrow> int \<Rightarrow> store \<Rightarrow> store" where
  "enqueueMessage_lua queue parentQueue messageKey queueName messageId messageData messageScore s =
     (let s1 = SET messageKey messageData s;
          s2 = ZADD queue messageScore messageId s1
      in rebalanceParentQueue queue parentQueue queueName s2)"

text \<open>
  \<^verbatim>\<open>tonumber(redis.call('GET', key) or default)\<close>: the default when the key is
  absent, else what \<^verbatim>\<open>tonumber\<close> makes of the stored string (\<open>None\<close> is \<^verbatim>\<open>nil\<close>).
\<close>

definition limitOrDefault :: "(string \<Rightarrow> int option) \<Rightarrow> key \<Rightarrow> int \<Rightarrow> store \<Rightarrow> int option" where
  "limitOrDefault tonumber k dflt s =
     (case GET k s of None \<Rightarrow> Some dflt | Some v \<Rightarrow> tonumber v)"

definition dequeueMessage_lua ::
  "(string \<Rightarrow> int option) \<Rightarrow> key \<Rightarrow> key \<Rightarrow> key \<Rightarrow> key \<Rightarrow> key \<Rightarrow> key \<Rightarrow> key \<Rightarrow> key \<Rightarrow> key \<Rightarrow>
   string \<Rightarrow> int \<Rightarrow> int \<Rightarrow> int \<Rightarrow> int \<Rightarrow> int \<Rightarrow> store \<Rightarrow> (error + (string \<times> int) option) \<times> store" where
  "dequeueMessage_lua tonumber childQueue parentQueue visibilityQueue
       concurrencyLimitKey envConcurrencyLimitKey orgConcurrencyLimitKey
       currentConcurrencyKey envCurrentConcurrencyKey orgCurrentConcurrencyKey
       childQueueName visibilityTimeout currentTime
       defaultConcurrencyLimit defaultEnvConcurrencyLimit defaultOrgConcurrencyLimit s =
     (case limitOrDefault tonumber orgConcurrencyLimitKey defaultOrgConcurrencyLimit s of
        None \<Rightarrow> (Inl LuaCompareNil, s)
      | Some orgConcurrencyLimit \<Rightarrow>
     if SCARD orgCurrentConcurrencyKey s \<ge> orgConcurrencyLimit then (Inr None, s) else
     (case limitOrDefault tonumber envConcurrencyLimitKey defaultEnvConcurrencyLimit s of
        None \<Rightarrow> (Inl LuaCompareNil, s)
      | Some envConcurrencyLimit \<Rightarrow>
     if SCARD envCurrentConcurrencyKey s \<ge> envConcurrencyLimit then (Inr None, s) else
     (case limitOrDefault tonumber concurrencyLimitKey defaultConcurrencyLimit s of
        None \<Rightarrow> (Inl LuaCompareNil, s)
      | Some concurrencyLimit \<Rightarrow>
     if SCARD currentConcurrencyKey s \<ge> concurrencyLimit then (Inr None, s) else
     (case ZRANGEBYSCORE childQueue None currentTime 0 1 s of
        [] \<Rightarrow> (Inr None, s)
      | (messageId, messageScore) # _ \<Rightarrow>
          (let timeoutScore = currentTime + visibilityTimeout;
               s1 = ZREM childQueue messageId s;
               s2 = ZADD visibilityQueue timeoutScore messageId s1;
               s3 = SADD currentConcurrencyKey messageId s2;
               s4 = SADD envCurrentConcurrencyKey messageId s3;
               s5 = SADD orgCurrentConcurrencyKey messageId s4;
               s6 = rebalanceParentQueue childQueue parentQueue childQueueName s5
           in (Inr (Some (messageId, messageScore)), s6))))))"

definition acknowledgeMessage_lua ::
  "key \<Rightarrow> key \<Rightarrow> key \<Rightarrow> key \<Rightarrow> key \<Rightarrow> string \<Rightarrow> store \<Rightarrow> store" where
  "acknowledgeMessage_lua messageKey visibilityQueue concurrencyKey
       envCurrentConcurrencyKey orgCurrentConcurrencyKey messageId s =
     (let s1 = DEL messageKey s;
          s2 = ZREM visibilityQueue messageId s1;
          s3 = SREM concurrencyKey messageId s2;
          s4 = SREM envCurrentConcurrencyKey messageId s3
      in SREM orgCurrentConcurrencyKey messageId s4)"

text \<open>
  \<^verbatim>\<open>tonumber(redis.call('ZSCORE', visibilityQueue, messageId)) or 0\<close>: the score of
  the member, and 0 when it has none.
\<close>

definition scoreOrZero :: "key \<Rightarrow> string \<Rightarrow> store \<Rightarrow> int" where
  "scoreOrZero k m s = (case ZSCORE k m s of None \<Rightarrow> 0 | Some sc \<Rightarrow> sc)"

definition nackMessage_lua ::
  "key \<Rightarrow> key \<Rightarrow> key \<Rightarrow> key \<Rightarrow> key \<Rightarrow> key \<Rightarrow> key \<Rightarrow> string \<Rightarrow> string \<Rightarrow> int \<Rightarrow> int \<Rightarrow> store \<Rightarrow> store" where
  "nackMessage_lua messageKey childQueueKey parentQueueKey concurrencyKey envConcurrencyKey
       orgConcurrencyKey visibilityQueue childQueueName messageId currentTime messageScore s =
     (let messageVisibility = scoreOrZero visibilityQueue messageId s in
      if messageVisibility = 0 then s
      else
        (let s1 = SREM concurrencyKey messageId s;
             s2 = SREM envConcurrencyKey messageId s1;
             s3 = SREM orgConcurrencyKey messageId s2;
             s4 = ZREM visibilityQueue messageId s3;
             s5 = ZADD childQueueKey messageScore messageId s4
         in rebalanceParentQueue childQueueKey parentQueueKey childQueueName s5))"

definition heartbeatMessage_lua :: "key \<Rightarrow> string \<Rightarrow> int \<Rightarrow> int \<Rightarrow> store \<Rightarrow> store" where
  "heartbeatMessage_lua visibilityQueue messageId milliseconds maxVisibilityTimeout s =
     (let currentVisibilityTimeout = scoreOrZero visibilityQueue messageId s in
      if currentVisibilityTimeout = 0 then s
      else
        (let newVisibilityTimeout =
               min (currentVisibilityTimeout + milliseconds * 1000) maxVisibilityTimeout
         in ZADD visibilityQueue newVisibilityTimeout messageId s))"

section \<open>The broker\<close>

text \<open>
  The message body, as \<^verbatim>\<open>enqueueMessage\<close> and \<^verbatim>\<open>replaceMessage\<close> build it.
  The type of \<open>data\<close> is left open.
\<close>

record 'd MessagePayload =
  version :: string
  data :: 'd
  queue :: key
  concurrencyKey :: "string option"
  timestamp :: int
  messageId :: string
  parentQueue :: key

text \<open>
  \<^verbatim>\<open>MessagePayload.safeParse(JSON.parse(raw))\<close> has three outcomes: \<^verbatim>\<open>JSON.parse\<close>
  throws on text that is not JSON, \<^verbatim>\<open>safeParse\<close> reports a failure on JSON that is
  not a message payload, or the payload is returned.
\<close>

datatype 'a parsed = Throws | Failure | Success 'a

text \<open>The part of the key producer the operations below use.\<close>

record 'env MarQSKeyProducer =
  queueKey :: "'env \<Rightarrow> string \<Rightarrow> string option \<Rightarrow> key"
  envSharedQueueKey :: "'env \<Rightarrow> key"
  messageKey :: "string \<Rightarrow> key"
  concurrencyLimitKeyFromQueue :: "key \<Rightarrow> key"
  currentConcurrencyKeyFromQueue :: "key \<Rightarrow> key"
  envConcurrencyLimitKeyFromQueue :: "key \<Rightarrow> key"
  envCurrentConcurrencyKeyFromQueue :: "key \<Rightarrow> key"
  orgConcurrencyLimitKeyFromQueue :: "key \<Rightarrow> key"
  orgCurrentConcurrencyKeyFromQueue :: "key \<Rightarrow> key"

text \<open>
  A broker: its options, its key producer, and the library functions its code calls
  (Lua's \<^verbatim>\<open>tonumber\<close>, \<^verbatim>\<open>JSON.stringify\<close>, the parse above and
  \<^verbatim>\<open>propagation.inject\<close>, which adds the trace context to the data), which are
  parameters.
\<close>

record ('env, 'd) MarQS =
  keys :: "'env MarQSKeyProducer"
  defaultQueueConcurrency :: int
  defaultEnvConcurrency :: int
  defaultOrgConcurrency :: int
  options_visibilityTimeoutInMs :: "int option"
  lua_tonumber :: "string \<Rightarrow> int option"
  JSON_stringify :: "'d MessagePayload \<Rightarrow> string"
  parseMessagePayload :: "string \<Rightarrow> 'd MessagePayload parsed"
  propagation_inject :: "'d \<Rightarrow> 'd"

definition SHARED_QUEUE :: key where
  "SHARED_QUEUE = ''sharedQueue''"

definition MESSAGE_VISIBILITY_TIMEOUT_QUEUE :: key where
  "MESSAGE_VISIBILITY_TIMEOUT_QUEUE = ''msgVisibilityTimeout''"

text \<open>\<^verbatim>\<open>this.options.visibilityTimeoutInMs ?? 300000\<close>\<close>

definition visibilityTimeoutInMs :: "('env, 'd) MarQS \<Rightarrow> int" where
  "visibilityTimeoutInMs M =
     (case options_visibilityTimeoutInMs M of None \<Rightarrow> 300000 | Some v \<Rightarrow> v)"

text \<open>
  The world of a broker operation: the store, and the scripts invoked so far with their
  keys and arguments, in the order of the \<^verbatim>\<open>this.redis.<script>(...)\<close> call.
\<close>

datatype script_call =
    EnqueueMessage key key key string string string int
  | DequeueMessage key key key key key key key key key string int int int int int
  | AcknowledgeMessage key key key key key string
  | NackMessage key key key key key key key string string int int
  | HeartbeatMessage key string int int

record world =
  redis :: store
  invoked :: "script_call list"

text \<open>
  An operation takes the reading of \<^verbatim>\<open>Date.now()\<close> as the argument \<open>now\<close> (one
  reading for the whole operation) and returns its result, or the error it throws, with
  the world it leaves.
\<close>

definition callEnqueueMessage :: "('env, 'd) MarQS \<Rightarrow> 'd MessagePayload \<Rightarrow> world \<Rightarrow> world" where
  "callEnqueueMessage M message w =
     \<lparr>redis = enqueueMessage_lua (queue message) (parentQueue message)
                (messageKey (keys M) (messageId message)) (queue message) (messageId message)
                (JSON_stringify M message) (timestamp message) (redis w),
      invoked = invoked w @
        [EnqueueMessage (queue message) (parentQueue message)
           (messageKey (keys M) (messageId message)) (queue message) (messageId message)
           (JSON_stringify M message) (timestamp message)]\<rparr>"

definition callDequeueMessage ::
  "('env, 'd) MarQS \<Rightarrow> key \<Rightarrow> key \<Rightarrow> key \<Rightarrow> key \<Rightarrow> key \<Rightarrow> key \<Rightarrow> key \<Rightarrow> key \<Rightarrow> key \<Rightarrow> int \<Rightarrow> world
     \<Rightarrow> (error + (string \<times> int) option) \<times> world" where
  "callDequeueMessage M messageQueue parentQueue' visibilityQueue concurrencyLimitKey
       envConcurrencyLimitKey orgConcurrencyLimitKey currentConcurrencyKey
       envCurrentConcurrencyKey orgCurrentConcurrencyKey now w =
     (let (result, s') =
            dequeueMessage_lua (lua_tonumber M) messageQueue parentQueue' visibilityQueue
              concurrencyLimitKey envConcurrencyLimitKey orgConcurrencyLimitKey
              currentConcurrencyKey envCurrentConcurrencyKey orgCurrentConcurrencyKey
              messageQueue (visibilityTimeoutInMs M) now
              (defaultQueueConcurrency M) (defaultEnvConcurrency M) (defaultOrgConcurrency M)
              (redis w)
      in (result,
          \<lparr>redis = s',
           invoked = invoked w @
             [DequeueMessage messageQueue parentQueue' visibilityQueue
                concurrencyLimitKey envConcurrencyLimitKey orgConcurrencyLimitKey
                currentConcurrencyKey envCurrentConcurrencyKey orgCurrentConcurrencyKey
                messageQueue (visibilityTimeoutInMs M) now
                (defaultQueueConcurrency M) (defaultEnvConcurrency M)
                (defaultOrgConcurrency M)]\<rparr>))"

definition callAcknowledgeMessage ::
  "key \<Rightarrow> key \<Rightarrow> key \<Rightarrow> key \<Rightarrow> key \<Rightarrow> string \<Rightarrow> world \<Rightarrow> world" where
  "callAcknowledgeMessage messageKey' visibilityQueue concurrencyKey' envConcurrencyKey
       orgConcurrencyKey messageId' w =
     \<lparr>redis = acknowledgeMessage_lua messageKey' visibilityQueue concurrencyKey'
                envConcurrencyKey orgConcurrencyKey messageId' (redis w),
      invoked = invoked w @
        [AcknowledgeMessage messageKey' visibilityQueue concurrencyKey' envConcurrencyKey
           orgConcurrencyKey messageId']\<rparr>"

definition callNackMessage ::
  "key \<Rightarrow> key \<Rightarrow> key \<Rightarrow> key \<Rightarrow> key \<Rightarrow> key \<Rightarrow> key \<Rightarrow> string \<Rightarrow> int \<Rightarrow> int \<Rightarrow> world \<Rightarrow> world" where
  "callNackMessage messageKey' messageQueue parentQueue' concurrencyKey' envConcurrencyKey
       orgConcurrencyKey visibilityQueue messageId' messageScore now w =
     \<lparr>redis = nackMessage_lua messageKey' messageQueue parentQueue' concurrencyKey'
                envConcurrencyKey orgConcurrencyKey visibilityQueue messageQueue messageId'
                now messageScore (redis w),
      invoked = invoked w @
        [NackMessage messageKey' messageQueue parentQueue' concurrencyKey' envConcurrencyKey
           orgConcurrencyKey visibilityQueue messageQueue messageId' now messageScore]\<rparr>"

definition callHeartbeatMessage :: "key \<Rightarrow> string \<Rightarrow> int \<Rightarrow> int \<Rightarrow> world \<Rightarrow> world" where
  "callHeartbeatMessage visibilityQueue messageId' milliseconds maxVisibilityTimeout w =
     \<lparr>redis = heartbeatMessage_lua visibilityQueue messageId' milliseconds
                maxVisibilityTimeout (redis w),
      invoked = invoked w @
        [HeartbeatMessage visibilityQueue messageId' milliseconds maxVisibilityTimeout]\<rparr>"

text \<open>
  \<^verbatim>\<open>#readMessage\<close>: nothing for a missing (or empty) body and for a body that is not
  a payload; the exception of \<^verbatim>\<open>JSON.parse\<close> is rethrown.
\<close>

definition readMessage ::
  "('env, 'd) MarQS \<Rightarrow> string \<Rightarrow> world \<Rightarrow> error + 'd MessagePayload option" where
  "readMessage M messageId' w =
     (case GET (messageKey (keys M) messageId') (redis w) of
        None \<Rightarrow> Inr None
      | Some rawMessage \<Rightarrow>
          if rawMessage = [] then Inr None
          else (case parseMessagePayload M rawMessage of
                  Throws \<Rightarrow> Inl JsonSyntaxError
                | Failure \<Rightarrow> Inr None
                | Success message \<Rightarrow> Inr (Some message)))"

definition enqueueMessage ::
  "('env, 'd) MarQS \<Rightarrow> 'env \<Rightarrow> string \<Rightarrow> string \<Rightarrow> 'd \<Rightarrow> string option \<Rightarrow> int \<Rightarrow> world \<Rightarrow> world" where
  "enqueueMessage M env queue' messageId' messageData concurrencyKey' now w =
     (let messageQueue = queueKey (keys M) env queue' concurrencyKey';
          parentQueue' = envSharedQueueKey (keys M) env;
          messagePayload =
            \<lparr>version = ''1'', data = propagation_inject M messageData, queue = messageQueue,
             concurrencyKey = concurrencyKey', timestamp = now, messageId = messageId',
             parentQueue = parentQueue'\<rparr>
      in callEnqueueMessage M messagePayload w)"

text \<open>
  The two dequeue operations differ in the parent queue only; \<open>dequeueScript\<close> is the
  call of \<^verbatim>\<open>#callDequeueMessage\<close> they both make. \<open>choice\<close> is what
  \<^verbatim>\<open>#getRandomQueueFromParentQueue\<close> returned: it reads the store (a rank range of the
  parent queue and the capacities of the candidates) and asks the priority strategy,
  whose code is in another file of the repository, to pick a child queue or none.
\<close>

abbreviation dequeueScript ::
  "('env, 'd) MarQS \<Rightarrow> key \<Rightarrow> key \<Rightarrow> int \<Rightarrow> world \<Rightarrow> (error + (string \<times> int) option) \<times> world" where
  "dequeueScript M messageQueue parentQueue' now w \<equiv>
     callDequeueMessage M messageQueue parentQueue' MESSAGE_VISIBILITY_TIMEOUT_QUEUE
       (concurrencyLimitKeyFromQueue (keys M) messageQueue)
       (envConcurrencyLimitKeyFromQueue (keys M) messageQueue)
       (orgConcurrencyLimitKeyFromQueue (keys M) messageQueue)
       (currentConcurrencyKeyFromQueue (keys M) messageQueue)
       (envCurrentConcurrencyKeyFromQueue (keys M) messageQueue)
       (orgCurrentConcurrencyKeyFromQueue (keys M) messageQueue) now w"

definition dequeueFrom ::
  "('env, 'd) MarQS \<Rightarrow> key \<Rightarrow> key option \<Rightarrow> int \<Rightarrow> world
     \<Rightarrow> (error + 'd MessagePayload option) \<times> world" where
  "dequeueFrom M parentQueue' choice now w =
     (case choice of
        None \<Rightarrow> (Inr None, w)
      | Some messageQueue \<Rightarrow>
          if messageQueue = [] then (Inr None, w)
          else
            (case dequeueScript M messageQueue parentQueue' now w of
               (Inl e, w') \<Rightarrow> (Inl e, w')
             | (Inr None, w') \<Rightarrow> (Inr None, w')
             | (Inr (Some messageData), w') \<Rightarrow> (readMessage M (fst messageData) w', w')))"

definition dequeueMessageInEnv ::
  "('env, 'd) MarQS \<Rightarrow> 'env \<Rightarrow> key option \<Rightarrow> int \<Rightarrow> world
     \<Rightarrow> (error + 'd MessagePayload option) \<times> world" where
  "dequeueMessageInEnv M env choice now w =
     dequeueFrom M (envSharedQueueKey (keys M) env) choice now w"

definition dequeueMessageInSharedQueue ::
  "('env, 'd) MarQS \<Rightarrow> key option \<Rightarrow> int \<Rightarrow> world
     \<Rightarrow> (error + 'd MessagePayload option) \<times> world" where
  "dequeueMessageInSharedQueue M choice now w = dequeueFrom M SHARED_QUEUE choice now w"

definition acknowledgeMessage ::
  "('env, 'd) MarQS \<Rightarrow> string \<Rightarrow> world \<Rightarrow> (error + unit) \<times> world" where
  "acknowledgeMessage M messageId' w =
     (case readMessage M messageId' w of
        Inl e \<Rightarrow> (Inl e, w)
      | Inr None \<Rightarrow> (Inr (), w)
      | Inr (Some message) \<Rightarrow>
          (Inr (),
           callAcknowledgeMessage (messageKey (keys M) messageId')
             MESSAGE_VISIBILITY_TIMEOUT_QUEUE
             (currentConcurrencyKeyFromQueue (keys M) (queue message))
             (envCurrentConcurrencyKeyFromQueue (keys M) (queue message))
             (orgCurrentConcurrencyKeyFromQueue (keys M) (queue message))
             messageId' w))"

definition replaceMessage ::
  "('env, 'd) MarQS \<Rightarrow> string \<Rightarrow> 'd \<Rightarrow> int option \<Rightarrow> int \<Rightarrow> world \<Rightarrow> (error + unit) \<times> world" where
  "replaceMessage M messageId' messageData timestamp' now w =
     (case readMessage M messageId' w of
        Inl e \<Rightarrow> (Inl e, w)
      | Inr None \<Rightarrow> (Inr (), w)
      | Inr (Some oldMessage) \<Rightarrow>
          (let w1 = callAcknowledgeMessage (messageKey (keys M) messageId')
                      MESSAGE_VISIBILITY_TIMEOUT_QUEUE
                      (currentConcurrencyKeyFromQueue (keys M) (queue oldMessage))
                      (envCurrentConcurrencyKeyFromQueue (keys M) (queue oldMessage))
                      (orgCurrentConcurrencyKeyFromQueue (keys M) (queue oldMessage))
                      messageId' w;
               newMessage =
                 \<lparr>version = ''1'', data = messageData, queue = queue oldMessage,
                  concurrencyKey = concurrencyKey oldMessage,
                  timestamp = (case timestamp' of None \<Rightarrow> now | Some t \<Rightarrow> t),
                  messageId = messageId', parentQueue = parentQueue oldMessage\<rparr>
           in (Inr (), callEnqueueMessage M newMessage w1)))"

text \<open>\<open>retryAt\<close> is optional and defaults to \<^verbatim>\<open>Date.now()\<close>.\<close>

definition nackMessage ::
  "('env, 'd) MarQS \<Rightarrow> string \<Rightarrow> int option \<Rightarrow> int \<Rightarrow> world \<Rightarrow> (error + unit) \<times> world" where
  "nackMessage M messageId' retryAt now w =
     (case readMessage M messageId' w of
        Inl e \<Rightarrow> (Inl e, w)
      | Inr None \<Rightarrow> (Inr (), w)
      | Inr (Some message) \<Rightarrow>
          (Inr (),
           callNackMessage (messageKey (keys M) messageId') (queue message)
             (parentQueue message)
             (currentConcurrencyKeyFromQueue (keys M) (queue message))
             (envCurrentConcurrencyKeyFromQueue (keys M) (queue message))
             (orgCurrentConcurrencyKeyFromQueue (keys M) (queue message))
             MESSAGE_VISIBILITY_TIMEOUT_QUEUE messageId'
             (case retryAt of None \<Rightarrow> now | Some t \<Rightarrow> t) now w))"

text \<open>\<open>seconds\<close> is optional and defaults to 30.\<close>

definition heartbeatMessage ::
  "('env, 'd) MarQS \<Rightarrow> string \<Rightarrow> int option \<Rightarrow> int \<Rightarrow> world \<Rightarrow> world" where
  "heartbeatMessage M messageId' seconds now w =
     callHeartbeatMessage MESSAGE_VISIBILITY_TIMEOUT_QUEUE messageId'
       ((case seconds of None \<Rightarrow> 30 | Some n \<Rightarrow> n) * 1000)
       (now + visibilityTimeoutInMs M) w"

text \<open>
  \<^verbatim>\<open>#requeueVisibleMessages\<close>: the members read at the start of the cycle, then the
  loop over them. An exception leaves the loop, and the cycle, at once.
\<close>

definition expiredMessages :: "int \<Rightarrow> world \<Rightarrow> string list" where
  "expiredMessages now w =
     map fst (ZRANGEBYSCORE MESSAGE_VISIBILITY_TIMEOUT_QUEUE (Some 0) now 0 10 (redis w))"

definition requeueMessage ::
  "('env, 'd) MarQS \<Rightarrow> int \<Rightarrow> string \<Rightarrow> world \<Rightarrow> error + world" where
  "requeueMessage M now message w =
     (case GET (messageKey (keys M) message) (redis w) of
        None \<Rightarrow> Inr (w\<lparr>redis := ZREM MESSAGE_VISIBILITY_TIMEOUT_QUEUE message (redis w)\<rparr>)
      | Some messageData \<Rightarrow>
          if messageData = []
          then Inr (w\<lparr>redis := ZREM MESSAGE_VISIBILITY_TIMEOUT_QUEUE message (redis w)\<rparr>)
          else (case parseMessagePayload M messageData of
                  Throws \<Rightarrow> Inl JsonSyntaxError
                | Failure \<Rightarrow>
                    Inr (w\<lparr>redis := ZREM MESSAGE_VISIBILITY_TIMEOUT_QUEUE message (redis w)\<rparr>)
                | Success parsedMessage \<Rightarrow>
                    Inr (callNackMessage (messageKey (keys M) message) (queue parsedMessage)
                           (parentQueue parsedMessage)
                           (currentConcurrencyKeyFromQueue (keys M) (queue parsedMessage))
                           (envCurrentConcurrencyKeyFromQueue (keys M) (queue parsedMessage))
                           (orgCurrentConcurrencyKeyFromQueue (keys M) (queue parsedMessage))
                           MESSAGE_VISIBILITY_TIMEOUT_QUEUE (messageId parsedMessage)
                           (timestamp parsedMessage) now w)))"

fun requeueLoop ::
  "('env, 'd) MarQS \<Rightarrow> int \<Rightarrow> string list \<Rightarrow> world \<Rightarrow> (error + unit) \<times> world" where
  "requeueLoop M now [] w = (Inr (), w)"
| "requeueLoop M now (message # messages) w =
     (case requeueMessage M now message w of
        Inl e \<Rightarrow> (Inl e, w)
      | Inr w' \<Rightarrow> requeueLoop M now messages w')"

definition requeueVisibleMessages ::
  "('env, 'd) MarQS \<Rightarrow> int \<Rightarrow> world \<Rightarrow> (error + unit) \<times> world" where
  "requeueVisibleMessages M now w = requeueLoop M now (expiredMessages now w) w"

section \<open>Sequences of operations\<close>

text \<open>
  A call of an operation of the broker, with the reading of \<^verbatim>\<open>Date.now()\<close> when it
  is made and, for a dequeue, the choice of child queue made for it. \<open>perform\<close> gives the
  world after the call; a call that throws leaves the world as it was when the error was
  raised. A sequence of calls threads the world through them.
\<close>

datatype ('env, 'd) operation =
    Enqueue 'env string string 'd "string option" int
  | DequeueInEnv 'env "key option" int
  | DequeueInSharedQueue "key option" int
  | Acknowledge string int
  | Replace string 'd "int option" int
  | Nack string "int option" int
  | Heartbeat string "int option" int
  | RequeueVisible int

fun calledAt :: "('env, 'd) operation \<Rightarrow> int" where
  "calledAt (Enqueue env queue' messageId' messageData concurrencyKey' now) = now"
| "calledAt (DequeueInEnv env choice now) = now"
| "calledAt (DequeueInSharedQueue choice now) = now"
| "calledAt (Acknowledge messageId' now) = now"
| "calledAt (Replace messageId' messageData timestamp' now) = now"
| "calledAt (Nack messageId' retryAt now) = now"
| "calledAt (Heartbeat messageId' seconds now) = now"
| "calledAt (RequeueVisible now) = now"

fun perform :: "('env, 'd) MarQS \<Rightarrow> ('env, 'd) operation \<Rightarrow> world \<Rightarrow> world" where
  "perform M (Enqueue env queue' messageId' messageData concurrencyKey' now) w =
     enqueueMessage M env queue' messageId' messageData concurrencyKey' now w"
| "perform M (DequeueInEnv env choice now) w = snd (dequeueMessageInEnv M env choice now w)"
| "perform M (DequeueInSharedQueue choice now) w =
     snd (dequeueMessageInSharedQueue M choice now w)"
| "perform M (Acknowledge messageId' now) w = snd (acknowledgeMessage M messageId' w)"
| "perform M (Replace messageId' messageData timestamp' now) w =
     snd (replaceMessage M messageId' messageData timestamp' now w)"
| "perform M (Nack messageId' retryAt now) w = snd (nackMessage M messageId' retryAt now w)"
| "perform M (Heartbeat messageId' seconds now) w = heartbeatMessage M messageId' seconds now w"
| "perform M (RequeueVisible now) w = snd (requeueVisibleMessages M now w)"

fun performAll :: "('env, 'd) MarQS \<Rightarrow> ('env, 'd) operation list \<Rightarrow> world \<Rightarrow> world" where
  "performAll M [] w = w"
| "performAll M (c # cs) w = performAll M cs (perform M c w)"

fun isDequeue :: "('env, 'd) operation \<Rightarrow> bool" where
  "isDequeue (DequeueInEnv env choice now) = True"
| "isDequeue (DequeueInSharedQueue choice now) = True"
| "isDequeue c = False"

section \<open>Notions of the specification\<close>

text \<open>
  The minimum score currently in a sorted set, and none for the empty one: what the
  parent queue is to hold for a child queue.
\<close>

definition minScore :: "zset \<Rightarrow> int option" where
  "minScore z = (if z = [] then None else Some (Min (snd ` set z)))"

text \<open>
  The bodies in the store name no queue that is the visibility queue: every stored string
  that parses as a payload has a queue key and a parent queue key other than the key of
  the visibility queue.
\<close>

definition bodiesOffVisibility :: "('env, 'd) MarQS \<Rightarrow> store \<Rightarrow> bool" where
  "bodiesOffVisibility M s \<longleftrightarrow>
     (\<forall>k raw p. GET k s = Some raw \<and> parseMessagePayload M raw = Success p
        \<longrightarrow> queue p \<noteq> MESSAGE_VISIBILITY_TIMEOUT_QUEUE
            \<and> parentQueue p \<noteq> MESSAGE_VISIBILITY_TIMEOUT_QUEUE)"

section \<open>A small broker\<close>

text \<open>
  An instance on which the closed examples below are evaluated: environments and data
  are strings, the keys have the shapes of the specification's table, the limits are
  decimal numerals, and the parse recognises the bodies of a given table of payloads,
  reports a failure on any other text in braces and throws on the rest.
\<close>

definition emptyStore :: store where
  "emptyStore = \<lparr>strings = (\<lambda>k. None), zsets = (\<lambda>k. []), sets = (\<lambda>k. {})\<rparr>"

definition emptyWorld :: world where
  "emptyWorld = \<lparr>redis = emptyStore, invoked = []\<rparr>"

definition decimal :: "string \<Rightarrow> int option" where
  "decimal v =
     (if v = [] \<or> (\<exists>c \<in> set v. of_char c < (48::nat) \<or> (57::nat) < of_char c) then None
      else Some (foldl (\<lambda>a c. a * 10 + (int (of_char c) - 48)) 0 v))"

definition demoKeys :: "string MarQSKeyProducer" where
  "demoKeys =
     \<lparr>queueKey = (\<lambda>env q ck. ''queue:'' @ env @ '':'' @ q @
                    (case ck of None \<Rightarrow> [] | Some c \<Rightarrow> '':ck:'' @ c)),
      envSharedQueueKey = (\<lambda>env. ''env:'' @ env @ '':sharedQueue''),
      messageKey = (\<lambda>m. ''message:'' @ m),
      concurrencyLimitKeyFromQueue = (\<lambda>q. ''cl:'' @ drop 6 q),
      currentConcurrencyKeyFromQueue = (\<lambda>q. ''cc:'' @ drop 6 q),
      envConcurrencyLimitKeyFromQueue = (\<lambda>q. ''el:'' @ takeWhile (\<lambda>c. c \<noteq> CHR '':'') (drop 6 q)),
      envCurrentConcurrencyKeyFromQueue = (\<lambda>q. ''ecc:'' @ takeWhile (\<lambda>c. c \<noteq> CHR '':'') (drop 6 q)),
      orgConcurrencyLimitKeyFromQueue = (\<lambda>q. ''ol:'' @ takeWhile (\<lambda>c. c \<noteq> CHR '':'') (drop 6 q)),
      orgCurrentConcurrencyKeyFromQueue = (\<lambda>q. ''occ:'' @ takeWhile (\<lambda>c. c \<noteq> CHR '':'') (drop 6 q))\<rparr>"

definition demoStringify :: "string MessagePayload \<Rightarrow> string" where
  "demoStringify p = ''{messageId:'' @ messageId p @ '',queue:'' @ queue p @ '',data:'' @ data p @ ''}''"

definition demoParse :: "string MessagePayload list \<Rightarrow> string \<Rightarrow> string MessagePayload parsed" where
  "demoParse table raw =
     (case find (\<lambda>p. demoStringify p = raw) table of
        Some p \<Rightarrow> Success p
      | None \<Rightarrow> if raw \<noteq> [] \<and> hd raw = CHR ''{'' \<and> last raw = CHR ''}'' then Failure else Throws)"

definition demoMarQS :: "string MessagePayload list \<Rightarrow> (string, string) MarQS" where
  "demoMarQS table =
     \<lparr>keys = demoKeys,
      defaultQueueConcurrency = 10,
      defaultEnvConcurrency = 10,
      defaultOrgConcurrency = 10,
      options_visibilityTimeoutInMs = None,
      lua_tonumber = decimal,
      JSON_stringify = demoStringify,
      parseMessagePayload = demoParse table,
      propagation_inject = (\<lambda>d. ''traceparent;'' @ d)\<rparr>"

text \<open>
  The stores of the examples at the level of the scripts: message \<open>a\<close> enqueued at
  score 100 in the child queue \<open>q\<close> of the parent \<open>p\<close>, then dequeued at time 150 with a
  visibility timeout of 500 into the visibility queue \<open>v\<close>; and a visibility queue that
  holds \<open>a\<close> at the deadline 0.
\<close>

definition queued :: store where
  "queued = enqueueMessage_lua ''q'' ''p'' ''message:a'' ''q'' ''a'' ''body'' 100 emptyStore"

definition inFlight :: store where
  "inFlight =
     snd (dequeueMessage_lua decimal ''q'' ''p'' ''v'' ''cl'' ''el'' ''ol'' ''cc'' ''ec'' ''oc''
            ''q'' 500 150 10 10 10 queued)"

definition zeroDeadline :: store where
  "zeroDeadline = ZADD ''v'' 0 ''a'' emptyStore"

text \<open>
  Stores in which one ceiling is reached: the limit is 1 and the current set holds one
  id. In \<open>orgFull\<close> the environment limit is, besides, a string that is no number.
\<close>

definition orgFull :: store where
  "orgFull = SET ''el'' ''many'' (SET ''ol'' ''1'' (SADD ''oc'' ''x'' queued))"

definition envFull :: store where
  "envFull = SET ''el'' ''1'' (SADD ''ec'' ''x'' queued)"

definition queueFull :: store where
  "queueFull = SET ''cl'' ''1'' (SADD ''cc'' ''x'' queued)"

text \<open>
  The worlds of the examples at the level of the broker: message \<open>a\<close> with the data
  \<open>{x:1}\<close> enqueued at time 100 in the queue \<open>tasks\<close> of the environment \<open>env1\<close>; then
  dequeued at time 150, which leases it until 300150; the leased message with its body
  gone; and the leased message with a body that is not JSON.
\<close>

definition payloadA :: "string MessagePayload" where
  "payloadA =
     \<lparr>version = ''1'', data = ''traceparent;{x:1}'', queue = ''queue:env1:tasks'',
      concurrencyKey = None, timestamp = 100, messageId = ''a'',
      parentQueue = ''env:env1:sharedQueue''\<rparr>"

definition demo :: "(string, string) MarQS" where
  "demo = demoMarQS [payloadA]"

definition enqueued :: world where
  "enqueued = enqueueMessage demo ''env1'' ''tasks'' ''a'' ''{x:1}'' None 100 emptyWorld"

definition leased :: world where
  "leased = snd (dequeueMessageInEnv demo ''env1'' (Some ''queue:env1:tasks'') 150 enqueued)"

definition bodyGone :: world where
  "bodyGone = leased\<lparr>redis := (redis leased)\<lparr>strings := (strings (redis leased))(''message:a'' := None)\<rparr>\<rparr>"

definition bodyNotJson :: world where
  "bodyNotJson = leased\<lparr>redis := SET ''message:a'' ''{'' (redis leased)\<rparr>"

section \<open>Facts about sorted sets\<close>

lemmas store_eval =
  emptyStore_def GET_def SET_def DEL_def ZSCORE_def ZADD_def ZREM_def zsorted_def ZRANGE_def
  ZRANGEBYSCORE_def SCARD_def SADD_def SREM_def rebalanceParentQueue_def limitOrDefault_def
  scoreOrZero_def enqueueMessage_lua_def dequeueMessage_lua_def acknowledgeMessage_lua_def
  nackMessage_lua_def heartbeatMessage_lua_def Let_def

lemma zsorted_Nil [simp]: "zsorted [] = []"
  by (simp add: zsorted_def)

lemma zsorted_set [simp]: "set (zsorted z) = set z"
  by (simp add: zsorted_def)

lemma zsorted_Nil_iff [simp]: "zsorted z = [] \<longleftrightarrow> z = []"
  by (metis zsorted_set set_empty)

lemma zsorted_sorted: "sorted (map (\<lambda>(m, sc). (sc, m)) (zsorted z))"
  by (simp add: zsorted_def)

lemma zsorted_head_least:
  assumes "zsorted z = e # rest" and "x \<in> set z"
  shows "snd e \<le> snd x"
proof -
  have "sorted (map (\<lambda>(m, sc). (sc, m)) (e # rest))"
    using zsorted_sorted [of z] assms(1) by simp
  moreover have "x \<in> set (e # rest)"
    using assms zsorted_set [of z] by simp
  ultimately have "(\<lambda>(m, sc). (sc, m)) e \<le> (\<lambda>(m, sc). (sc, m)) x"
    by auto
  then show ?thesis
    by (cases e; cases x) (auto simp: less_eq_prod_def)
qed

lemma zsorted_head_mem:
  assumes "zsorted z = e # rest"
  shows "e \<in> set z"
  using assms zsorted_set [of z] by (metis list.set_intros(1))

lemma zsorted_head_Min:
  assumes "zsorted z = e # rest"
  shows "snd e = Min (snd ` set z)"
proof -
  have "snd e \<in> snd ` set z"
    using zsorted_head_mem [OF assms] by simp
  moreover have "\<forall>y \<in> snd ` set z. snd e \<le> y"
    using zsorted_head_least [OF assms] by auto
  ultimately show ?thesis
    by (metis List.finite_set Min_eqI finite_imageI)
qed

lemma update_mem: "(n, c) \<in> set (AList.update n c z)"
  by (induction z) auto

lemma update_subset: "set (AList.update n c z) \<subseteq> insert (n, c) (set z)"
  by (induction z) auto

lemma update_not_Nil [simp]: "AList.update n c z \<noteq> []"
  by (cases z) auto

lemma Min_update_least:
  assumes "\<forall>x \<in> set z. c \<le> snd x"
  shows "Min (snd ` set (AList.update n c z)) = (c::int)"
proof (rule Min_eqI)
  show "finite (snd ` set (AList.update n c z))" by simp
  show "c \<in> snd ` set (AList.update n c z)"
    using update_mem [of n c z] by force
  fix y assume "y \<in> snd ` set (AList.update n c z)"
  then show "c \<le> y" using update_subset [of n c z] assms by auto
qed

lemma ZADD_distinct:
  "distinct (map fst (zsets s k)) \<Longrightarrow> distinct (map fst (zsets (ZADD k' sc m s) k))"
  by (auto simp: ZADD_def distinct_update)

lemma ZREM_distinct:
  "distinct (map fst (zsets s k)) \<Longrightarrow> distinct (map fst (zsets (ZREM k' m s) k))"
  by (auto simp: ZREM_def distinct_delete)



section \<open>Rebalancing the parent queue\<close>

lemma rebalance_zsets_other:
  "parentQ \<noteq> k \<Longrightarrow> zsets (rebalanceParentQueue childQ parentQ name s) k = zsets s k"
  by (simp add: rebalanceParentQueue_def ZADD_def ZREM_def split: list.splits)

lemma rebalance_sets [simp]: "sets (rebalanceParentQueue childQ parentQ name s) = sets s"
  by (simp add: rebalanceParentQueue_def ZADD_def ZREM_def split: list.splits)

lemma rebalance_strings [simp]:
  "strings (rebalanceParentQueue childQ parentQ name s) = strings s"
  by (simp add: rebalanceParentQueue_def ZADD_def ZREM_def split: list.splits)

lemma rebalance_parent_entry:
  "ZSCORE p n (rebalanceParentQueue q p n s) = minScore (zsets (rebalanceParentQueue q p n s) q)"
proof (cases "zsorted (zsets s q)")
  case Nil
  then have "zsets s q = []" by simp
  with Nil show ?thesis
    by (auto simp: rebalanceParentQueue_def ZRANGE_def ZREM_def ZSCORE_def minScore_def
        delete_conv')
next
  case (Cons e rest)
  have least: "\<forall>x \<in> set (zsets s q). snd e \<le> snd x"
    using zsorted_head_least [OF Cons] by simp
  have ne: "zsets s q \<noteq> []" using Cons by auto
  have eq: "snd e = Min (snd ` set (zsets s q))" by (rule zsorted_head_Min [OF Cons])
  show ?thesis
  proof (cases "p = q")
    case True
    then show ?thesis using Cons Min_update_least [OF least, of n]
      by (simp add: rebalanceParentQueue_def ZRANGE_def ZADD_def ZSCORE_def minScore_def
          update_conv')
  next
    case False
    then show ?thesis using Cons ne eq
      by (simp add: rebalanceParentQueue_def ZRANGE_def ZADD_def ZSCORE_def minScore_def
          update_conv')
  qed
qed

lemma dequeue_success_store:
  assumes "fst (dequeueMessage_lua tn cq pq vq cl el ol cc ec oc name vt now dq de dor s) = Inr (Some x)"
  shows "\<exists>s5. snd (dequeueMessage_lua tn cq pq vq cl el ol cc ec oc name vt now dq de dor s)
           = rebalanceParentQueue cq pq name s5"
  using assms
  by (auto simp: dequeueMessage_lua_def Let_def split: option.splits if_splits list.splits)

lemma dequeue_unchanged_unless_success:
  "(\<forall>x. fst (dequeueMessage_lua tn cq pq vq cl el ol cc ec oc name vt now dq de dor s)
          \<noteq> Inr (Some x))
   \<Longrightarrow> snd (dequeueMessage_lua tn cq pq vq cl el ol cc ec oc name vt now dq de dor s) = s"
  by (auto simp: dequeueMessage_lua_def Let_def split: option.splits if_splits list.splits)

section \<open>The stores of the examples\<close>

lemma queued_eq:
  "queued = \<lparr>strings = (\<lambda>k. None)(''message:a'' \<mapsto> ''body''),
             zsets = (\<lambda>k. [])(''q'' := [(''a'', 100)], ''p'' := [(''q'', 100)]),
             sets = (\<lambda>k. {})\<rparr>"
  by (simp add: queued_def store_eval)

lemma dequeue_queued:
  "dequeueMessage_lua decimal ''q'' ''p'' ''v'' ''cl'' ''el'' ''ol'' ''cc'' ''ec'' ''oc''
                ''q'' 500 150 10 10 10 queued
   = (Inr (Some (''a'', 100)),
      \<lparr>strings = (\<lambda>k. None)(''message:a'' \<mapsto> ''body''),
       zsets = (\<lambda>k. [])(''q'' := [], ''p'' := [], ''v'' := [(''a'', 650)]),
       sets = (\<lambda>k. {})(''cc'' := {''a''}, ''ec'' := {''a''}, ''oc'' := {''a''})\<rparr>)"
  by (simp add: queued_eq store_eval fun_upd_twist)

lemma inFlight_eq:
  "inFlight = \<lparr>strings = (\<lambda>k. None)(''message:a'' \<mapsto> ''body''),
       zsets = (\<lambda>k. [])(''q'' := [], ''p'' := [], ''v'' := [(''a'', 650)]),
       sets = (\<lambda>k. {})(''cc'' := {''a''}, ''ec'' := {''a''}, ''oc'' := {''a''})\<rparr>"
  by (simp add: inFlight_def dequeue_queued)

section \<open>The parent queue holds the minimum of the child\<close>

text \<open>
  Claim C6. When the enqueue script, a dequeue script that hands out a message, or a
  nack script that finds the message in flight has completed, the score of the child
  queue's name in the parent queue is the minimum score currently in the child queue,
  and the name is absent from the parent queue exactly when the child queue is empty.
  A dequeue script that hands out no message and a nack script that does not find the
  message in flight change no queue: they leave the store as it was.
\<close>

theorem parent_score_is_child_minimum:
  "ZSCORE pq name (enqueueMessage_lua cq pq mk name mid body sc s)
     = minScore (zsets (enqueueMessage_lua cq pq mk name mid body sc s) cq)
   \<and> (fst (dequeueMessage_lua tn cq pq vq cl el ol cc ec oc name vt now dq de dor s) = Inr (Some x)
      \<longrightarrow> ZSCORE pq name (snd (dequeueMessage_lua tn cq pq vq cl el ol cc ec oc name vt now dq de dor s))
          = minScore (zsets (snd (dequeueMessage_lua tn cq pq vq cl el ol cc ec oc name vt now dq de dor s)) cq))
   \<and> (scoreOrZero vq mid s \<noteq> 0
      \<longrightarrow> ZSCORE pq name (nackMessage_lua mk cq pq cc ec oc vq name mid now sc s)
          = minScore (zsets (nackMessage_lua mk cq pq cc ec oc vq name mid now sc s) cq))
   \<and> ((\<forall>y. fst (dequeueMessage_lua tn cq pq vq cl el ol cc ec oc name vt now dq de dor s)
              \<noteq> Inr (Some y))
      \<longrightarrow> snd (dequeueMessage_lua tn cq pq vq cl el ol cc ec oc name vt now dq de dor s) = s)
   \<and> (scoreOrZero vq mid s = 0
      \<longrightarrow> nackMessage_lua mk cq pq cc ec oc vq name mid now sc s = s)
   \<and> (minScore z = None \<longleftrightarrow> z = [])"
proof (intro conjI impI)
  show "ZSCORE pq name (enqueueMessage_lua cq pq mk name mid body sc s)
     = minScore (zsets (enqueueMessage_lua cq pq mk name mid body sc s) cq)"
    by (simp add: enqueueMessage_lua_def Let_def rebalance_parent_entry)
next
  assume "fst (dequeueMessage_lua tn cq pq vq cl el ol cc ec oc name vt now dq de dor s) = Inr (Some x)"
  from dequeue_success_store [OF this] obtain s5 where
    "snd (dequeueMessage_lua tn cq pq vq cl el ol cc ec oc name vt now dq de dor s)
       = rebalanceParentQueue cq pq name s5" ..
  then show "ZSCORE pq name (snd (dequeueMessage_lua tn cq pq vq cl el ol cc ec oc name vt now dq de dor s))
          = minScore (zsets (snd (dequeueMessage_lua tn cq pq vq cl el ol cc ec oc name vt now dq de dor s)) cq)"
    by (simp add: rebalance_parent_entry)
next
  assume "scoreOrZero vq mid s \<noteq> 0"
  then show "ZSCORE pq name (nackMessage_lua mk cq pq cc ec oc vq name mid now sc s)
          = minScore (zsets (nackMessage_lua mk cq pq cc ec oc vq name mid now sc s) cq)"
    by (simp add: nackMessage_lua_def Let_def rebalance_parent_entry)
next
  assume "\<forall>y. fst (dequeueMessage_lua tn cq pq vq cl el ol cc ec oc name vt now dq de dor s)
              \<noteq> Inr (Some y)"
  then show "snd (dequeueMessage_lua tn cq pq vq cl el ol cc ec oc name vt now dq de dor s) = s"
    by (rule dequeue_unchanged_unless_success)
next
  assume "scoreOrZero vq mid s = 0"
  then show "nackMessage_lua mk cq pq cc ec oc vq name mid now sc s = s"
    by (simp add: nackMessage_lua_def)
next
  show "minScore z = None \<longleftrightarrow> z = []"
    by (simp add: minScore_def)
qed

theorem parent_score_is_child_minimum_witness:
  "fst (dequeueMessage_lua decimal ''q'' ''p'' ''v'' ''cl'' ''el'' ''ol'' ''cc'' ''ec'' ''oc''
          ''q'' 500 150 10 10 10 queued) = Inr (Some (''a'', 100))
   \<and> ZSCORE ''p'' ''q'' inFlight = minScore (zsets inFlight ''q'')
   \<and> scoreOrZero ''v'' ''a'' inFlight \<noteq> 0
   \<and> ZSCORE ''p'' ''q''
        (nackMessage_lua ''message:a'' ''q'' ''p'' ''cc'' ''ec'' ''oc'' ''v'' ''q'' ''a'' 700 100 inFlight)
      = minScore (zsets
          (nackMessage_lua ''message:a'' ''q'' ''p'' ''cc'' ''ec'' ''oc'' ''v'' ''q'' ''a'' 700 100 inFlight)
          ''q'')
   \<and> snd (dequeueMessage_lua decimal ''q'' ''p'' ''v'' ''cl'' ''el'' ''ol'' ''cc'' ''ec'' ''oc''
          ''q'' 500 50 10 10 10 queued) = queued
   \<and> nackMessage_lua ''message:a'' ''q'' ''p'' ''cc'' ''ec'' ''oc'' ''v'' ''q'' ''a'' 700 100 queued
      = queued"
proof -
  have deq: "fst (dequeueMessage_lua decimal ''q'' ''p'' ''v'' ''cl'' ''el'' ''ol'' ''cc'' ''ec'' ''oc''
          ''q'' 500 150 10 10 10 queued) = Inr (Some (''a'', 100))"
    by (simp add: dequeue_queued)
  have inflight: "scoreOrZero ''v'' ''a'' inFlight \<noteq> 0"
    by (simp add: inFlight_eq scoreOrZero_def ZSCORE_def)
  have early: "\<forall>y. fst (dequeueMessage_lua decimal ''q'' ''p'' ''v'' ''cl'' ''el'' ''ol'' ''cc'' ''ec''
          ''oc'' ''q'' 500 50 10 10 10 queued) \<noteq> Inr (Some y)"
    by (simp add: queued_eq store_eval)
  have absent: "scoreOrZero ''v'' ''a'' queued = 0"
    by (simp add: queued_eq scoreOrZero_def ZSCORE_def)
  note at_queued = parent_score_is_child_minimum [where s = queued and tn = decimal
        and cq = "''q''" and pq = "''p''" and vq = "''v''" and cl = "''cl''" and el = "''el''"
        and ol = "''ol''" and cc = "''cc''" and ec = "''ec''" and oc = "''oc''" and name = "''q''"
        and vt = 500 and dq = 10 and de = 10 and dor = 10 and mid = "''a''"
        and mk = "''message:a''" and sc = 100]
  note at_inFlight = parent_score_is_child_minimum [where s = inFlight and cq = "''q''"
        and pq = "''p''" and vq = "''v''" and cc = "''cc''" and ec = "''ec''" and oc = "''oc''"
        and name = "''q''" and mid = "''a''" and mk = "''message:a''" and now = 700 and sc = 100]
  have handed: "ZSCORE ''p'' ''q'' inFlight = minScore (zsets inFlight ''q'')"
    using deq at_queued [where now = 150 and x = "(''a'', 100)"] unfolding inFlight_def by blast
  have nacked: "ZSCORE ''p'' ''q''
        (nackMessage_lua ''message:a'' ''q'' ''p'' ''cc'' ''ec'' ''oc'' ''v'' ''q'' ''a'' 700 100 inFlight)
      = minScore (zsets
          (nackMessage_lua ''message:a'' ''q'' ''p'' ''cc'' ''ec'' ''oc'' ''v'' ''q'' ''a'' 700 100 inFlight)
          ''q'')"
    using inflight at_inFlight by blast
  have idle: "snd (dequeueMessage_lua decimal ''q'' ''p'' ''v'' ''cl'' ''el'' ''ol'' ''cc'' ''ec'' ''oc''
          ''q'' 500 50 10 10 10 queued) = queued"
    using early at_queued [where now = 50] by blast
  have noop: "nackMessage_lua ''message:a'' ''q'' ''p'' ''cc'' ''ec'' ''oc'' ''v'' ''q'' ''a'' 700 100 queued
      = queued"
    using absent at_queued [where now = 700] by blast
  show ?thesis
    using deq handed inflight nacked idle noop by blast
qed

section \<open>The dequeue script\<close>

text \<open>
  Claim C5. The dequeue script checks the ceiling of the organisation, then that of the
  environment, then that of the queue, each as: the cardinality of the current set is at
  least the number under the limit key, or the default when the key is absent. A check
  that fails returns none and leaves the store as it was; the checks after it are not
  made, so what the later limit keys hold does not matter.
\<close>

theorem dequeue_checks_ceilings_in_order:
  "(limitOrDefault tn ol dor s = Some orgLimit \<and> orgLimit \<le> SCARD oc s
      \<longrightarrow> dequeueMessage_lua tn cq pq vq cl el ol cc ec oc name vt now dq de dor s = (Inr None, s))
   \<and> (limitOrDefault tn ol dor s = Some orgLimit \<and> SCARD oc s < orgLimit
      \<and> limitOrDefault tn el de s = Some envLimit \<and> envLimit \<le> SCARD ec s
      \<longrightarrow> dequeueMessage_lua tn cq pq vq cl el ol cc ec oc name vt now dq de dor s = (Inr None, s))
   \<and> (limitOrDefault tn ol dor s = Some orgLimit \<and> SCARD oc s < orgLimit
      \<and> limitOrDefault tn el de s = Some envLimit \<and> SCARD ec s < envLimit
      \<and> limitOrDefault tn cl dq s = Some queueLimit \<and> queueLimit \<le> SCARD cc s
      \<longrightarrow> dequeueMessage_lua tn cq pq vq cl el ol cc ec oc name vt now dq de dor s = (Inr None, s))
   \<and> (GET k s = None \<longrightarrow> limitOrDefault tn k d s = Some d)
   \<and> (GET k s = Some v \<longrightarrow> limitOrDefault tn k d s = tn v)
   \<and> SCARD k s = int (card (sets s k))"
  by (simp add: dequeueMessage_lua_def limitOrDefault_def SCARD_def)

theorem dequeue_checks_ceilings_in_order_witness:
  "dequeueMessage_lua decimal ''q'' ''p'' ''v'' ''cl'' ''el'' ''ol'' ''cc'' ''ec'' ''oc''
       ''q'' 500 150 10 10 10 orgFull = (Inr None, orgFull)
   \<and> dequeueMessage_lua decimal ''q'' ''p'' ''v'' ''cl'' ''el'' ''ol'' ''cc'' ''ec'' ''oc''
       ''q'' 500 150 10 10 10 envFull = (Inr None, envFull)
   \<and> dequeueMessage_lua decimal ''q'' ''p'' ''v'' ''cl'' ''el'' ''ol'' ''cc'' ''ec'' ''oc''
       ''q'' 500 150 10 10 10 queueFull = (Inr None, queueFull)
   \<and> limitOrDefault decimal ''el'' 10 orgFull = None
   \<and> limitOrDefault decimal ''ol'' 10 envFull = Some 10
   \<and> limitOrDefault decimal ''el'' 10 envFull = Some 1"
proof -
  have org: "limitOrDefault decimal ''ol'' 10 orgFull = Some 1 \<and> 1 \<le> SCARD ''oc'' orgFull"
    by (simp add: orgFull_def queued_eq store_eval decimal_def)
  have env: "limitOrDefault decimal ''ol'' 10 envFull = Some 10 \<and> SCARD ''oc'' envFull < 10
      \<and> limitOrDefault decimal ''el'' 10 envFull = Some 1 \<and> 1 \<le> SCARD ''ec'' envFull"
    by (simp add: envFull_def queued_eq store_eval decimal_def)
  have que: "limitOrDefault decimal ''ol'' 10 queueFull = Some 10 \<and> SCARD ''oc'' queueFull < 10
      \<and> limitOrDefault decimal ''el'' 10 queueFull = Some 10 \<and> SCARD ''ec'' queueFull < 10
      \<and> limitOrDefault decimal ''cl'' 10 queueFull = Some 1 \<and> 1 \<le> SCARD ''cc'' queueFull"
    by (simp add: queueFull_def queued_eq store_eval decimal_def)
  have absent: "GET ''ol'' envFull = None" and present: "GET ''el'' envFull = Some ''1''"
    and garbled: "GET ''el'' orgFull = Some ''many''"
    by (simp_all add: envFull_def orgFull_def queued_eq store_eval)
  have many: "decimal ''many'' = None" and one: "decimal ''1'' = Some 1"
    by (simp_all add: decimal_def)
  show ?thesis
    using org env que absent present garbled many one
      dequeue_checks_ceilings_in_order [where s = orgFull and tn = decimal and ol = "''ol''"
        and oc = "''oc''" and orgLimit = 1 and dor = 10 and k = "''el''" and v = "''many''"]
      dequeue_checks_ceilings_in_order [where s = envFull and tn = decimal and ol = "''ol''"
        and oc = "''oc''" and orgLimit = 10 and dor = 10 and el = "''el''" and ec = "''ec''"
        and envLimit = 1 and de = 10 and k = "''ol''" and d = 10]
      dequeue_checks_ceilings_in_order [where s = envFull and tn = decimal
        and k = "''el''" and v = "''1''"]
      dequeue_checks_ceilings_in_order [where s = queueFull and tn = decimal and ol = "''ol''"
        and oc = "''oc''" and orgLimit = 10 and dor = 10 and el = "''el''" and ec = "''ec''"
        and envLimit = 10 and de = 10 and cl = "''cl''" and cc = "''cc''" and queueLimit = 1
        and dq = 10]
    by simp
qed




section \<open>The nack and heartbeat scripts\<close>

lemma nack_active:
  "scoreOrZero vq mid s \<noteq> 0 \<Longrightarrow>
   nackMessage_lua mk cq pq cc ec oc vq name mid now sc s
     = rebalanceParentQueue cq pq name
         (ZADD cq sc mid (ZREM vq mid (SREM oc mid (SREM ec mid (SREM cc mid s)))))"
  by (simp add: nackMessage_lua_def Let_def)

lemma scoreOrZero_eq_0_iff:
  "scoreOrZero vq mid s = 0 \<longleftrightarrow> ZSCORE vq mid s = None \<or> ZSCORE vq mid s = Some 0"
  by (simp add: scoreOrZero_def split: option.splits)

text \<open>
  What the nack script does, with the visibility queue, the child queue and the parent
  queue three keys. Its guard reads \<^verbatim>\<open>tonumber(ZSCORE) or 0\<close> and returns when that is
  0, so the script changes nothing exactly when the id is absent from the visibility
  queue or is there with the score 0. When the id is there with another score, the script
  removes it from the visibility queue and from the three current-concurrency sets and
  puts it in the child queue at the score it was given, which nothing relates to the
  current time.
\<close>

lemma nack_script_effect:
  "vq \<noteq> cq \<and> vq \<noteq> pq \<and> pq \<noteq> cq \<longrightarrow>
     ((nackMessage_lua mk cq pq cc ec oc vq name mid now sc s = s)
        \<longleftrightarrow> (ZSCORE vq mid s = None \<or> ZSCORE vq mid s = Some 0))
     \<and> ((\<exists>d. ZSCORE vq mid s = Some d \<and> d \<noteq> 0) \<longrightarrow>
          ZSCORE vq mid (nackMessage_lua mk cq pq cc ec oc vq name mid now sc s) = None
          \<and> mid \<notin> sets (nackMessage_lua mk cq pq cc ec oc vq name mid now sc s) cc
          \<and> mid \<notin> sets (nackMessage_lua mk cq pq cc ec oc vq name mid now sc s) ec
          \<and> mid \<notin> sets (nackMessage_lua mk cq pq cc ec oc vq name mid now sc s) oc
          \<and> ZSCORE cq mid (nackMessage_lua mk cq pq cc ec oc vq name mid now sc s) = Some sc)"
proof (intro impI)
  assume k: "vq \<noteq> cq \<and> vq \<noteq> pq \<and> pq \<noteq> cq"
  let ?s' = "nackMessage_lua mk cq pq cc ec oc vq name mid now sc s"
  have active: "ZSCORE vq mid ?s' = None \<and> mid \<notin> sets ?s' cc \<and> mid \<notin> sets ?s' ec
      \<and> mid \<notin> sets ?s' oc \<and> ZSCORE cq mid ?s' = Some sc"
    if "scoreOrZero vq mid s \<noteq> 0"
  proof -
    have pv: "pq \<noteq> vq" using k by auto
    have "ZSCORE vq mid ?s' = None"
      using k by (simp add: nack_active [OF that] ZSCORE_def rebalance_zsets_other [OF pv]
          ZADD_def ZREM_def SREM_def delete_conv')
    moreover have "ZSCORE cq mid ?s' = Some sc"
      using k by (simp add: nack_active [OF that] ZSCORE_def rebalance_zsets_other
          ZADD_def ZREM_def SREM_def update_conv')
    moreover have "mid \<notin> sets ?s' cc \<and> mid \<notin> sets ?s' ec \<and> mid \<notin> sets ?s' oc"
      by (simp add: nack_active [OF that] ZADD_def ZREM_def SREM_def)
    ultimately show ?thesis by simp
  qed
  have noop: "?s' = s" if "scoreOrZero vq mid s = 0"
    using that by (simp add: nackMessage_lua_def)
  have changed: "?s' \<noteq> s" if "scoreOrZero vq mid s \<noteq> 0"
  proof
    assume "?s' = s"
    then have "ZSCORE vq mid s = None" using active [OF that] by simp
    then show False using that by (simp add: scoreOrZero_def)
  qed
  have "(?s' = s) \<longleftrightarrow> (ZSCORE vq mid s = None \<or> ZSCORE vq mid s = Some 0)"
    using noop changed scoreOrZero_eq_0_iff [of vq mid s] by blast
  moreover have "(\<exists>d. ZSCORE vq mid s = Some d \<and> d \<noteq> 0) \<longrightarrow>
          ZSCORE vq mid ?s' = None \<and> mid \<notin> sets ?s' cc \<and> mid \<notin> sets ?s' ec
          \<and> mid \<notin> sets ?s' oc \<and> ZSCORE cq mid ?s' = Some sc"
    using active scoreOrZero_eq_0_iff [of vq mid s] by auto
  ultimately show "((?s' = s) \<longleftrightarrow> (ZSCORE vq mid s = None \<or> ZSCORE vq mid s = Some 0))
     \<and> ((\<exists>d. ZSCORE vq mid s = Some d \<and> d \<noteq> 0) \<longrightarrow>
          ZSCORE vq mid ?s' = None \<and> mid \<notin> sets ?s' cc \<and> mid \<notin> sets ?s' ec
          \<and> mid \<notin> sets ?s' oc \<and> ZSCORE cq mid ?s' = Some sc)"
    by blast
qed

lemma nack_script_effect_example:
  "ZSCORE ''v'' ''a'' inFlight = Some 650
   \<and> ZSCORE ''v'' ''a''
       (nackMessage_lua ''message:a'' ''q'' ''p'' ''cc'' ''ec'' ''oc'' ''v'' ''q'' ''a'' 700 5000 inFlight) = None
   \<and> ''a'' \<notin> sets
       (nackMessage_lua ''message:a'' ''q'' ''p'' ''cc'' ''ec'' ''oc'' ''v'' ''q'' ''a'' 700 5000 inFlight) ''cc''
   \<and> ZSCORE ''q'' ''a''
       (nackMessage_lua ''message:a'' ''q'' ''p'' ''cc'' ''ec'' ''oc'' ''v'' ''q'' ''a'' 700 5000 inFlight) = Some 5000
   \<and> nackMessage_lua ''message:a'' ''q'' ''p'' ''cc'' ''ec'' ''oc'' ''v'' ''q'' ''a'' 700 5000 queued = queued"
proof -
  have k: "''v'' \<noteq> ''q'' \<and> ''v'' \<noteq> ''p'' \<and> ''p'' \<noteq> ''q''" by simp
  have there: "ZSCORE ''v'' ''a'' inFlight = Some 650"
    by (simp add: inFlight_eq ZSCORE_def)
  have absent: "ZSCORE ''v'' ''a'' queued = None"
    by (simp add: queued_eq ZSCORE_def)
  show ?thesis
    using k there absent
      nack_script_effect [where vq = "''v''" and cq = "''q''" and pq = "''p''"
        and mid = "''a''" and s = inFlight and cc = "''cc''" and ec = "''ec''" and oc = "''oc''"
        and mk = "''message:a''" and name = "''q''" and now = 700 and sc = 5000]
      nack_script_effect [where vq = "''v''" and cq = "''q''" and pq = "''p''"
        and mid = "''a''" and s = queued and cc = "''cc''" and ec = "''ec''" and oc = "''oc''"
        and mk = "''message:a''" and name = "''q''" and now = 700 and sc = 5000]
    by simp
qed


text \<open>
  Claim C9. For an id that is in the visibility queue with the score 0, the nack script
  and the heartbeat script both leave the store exactly as it was: the message is not
  put back in its queue and its deadline is not moved.
\<close>

theorem zero_deadline_is_taken_for_absent:
  "ZSCORE vq mid s = Some 0 \<Longrightarrow>
     nackMessage_lua mk cq pq cc ec oc vq name mid now sc s = s
     \<and> heartbeatMessage_lua vq mid milliseconds maxVisibilityTimeout s = s"
  by (simp add: nackMessage_lua_def heartbeatMessage_lua_def scoreOrZero_def)

theorem zero_deadline_is_taken_for_absent_witness:
  "ZSCORE ''v'' ''a'' zeroDeadline = Some 0
   \<and> nackMessage_lua ''message:a'' ''q'' ''p'' ''cc'' ''ec'' ''oc'' ''v'' ''q'' ''a'' 700 100
       zeroDeadline = zeroDeadline
   \<and> heartbeatMessage_lua ''v'' ''a'' 30000 300700 zeroDeadline = zeroDeadline"
proof -
  have zero: "ZSCORE ''v'' ''a'' zeroDeadline = Some 0"
    by (simp add: zeroDeadline_def store_eval)
  show ?thesis
    using zero zero_deadline_is_taken_for_absent [OF zero, of "''message:a''" "''q''" "''p''"
        "''cc''" "''ec''" "''oc''" "''q''" 700 100 30000 300700]
    by simp
qed

section \<open>The worlds of the examples\<close>

lemmas broker_eval =
  demo_def demoMarQS_def demoKeys_def demoStringify_def demoParse_def payloadA_def
  emptyWorld_def visibilityTimeoutInMs_def SHARED_QUEUE_def MESSAGE_VISIBILITY_TIMEOUT_QUEUE_def
  callEnqueueMessage_def callDequeueMessage_def callAcknowledgeMessage_def callNackMessage_def
  callHeartbeatMessage_def readMessage_def enqueueMessage_def dequeueFrom_def
  dequeueMessageInEnv_def dequeueMessageInSharedQueue_def acknowledgeMessage_def
  replaceMessage_def nackMessage_def heartbeatMessage_def expiredMessages_def
  requeueMessage_def requeueVisibleMessages_def

lemma demo_round_trip:
  "parseMessagePayload demo (JSON_stringify demo payloadA) = Success payloadA
   \<and> JSON_stringify demo payloadA \<noteq> []"
  by (simp add: broker_eval)

lemma enqueued_redis:
  "redis enqueued =
     \<lparr>strings = (\<lambda>k. None)(''message:a'' \<mapsto> demoStringify payloadA),
      zsets = (\<lambda>k. [])(''queue:env1:tasks'' := [(''a'', 100)],
                          ''env:env1:sharedQueue'' := [(''queue:env1:tasks'', 100)]),
      sets = (\<lambda>k. {})\<rparr>"
  by (simp add: enqueued_def broker_eval store_eval)

lemma dequeue_enqueued:
  "fst (dequeueScript demo ''queue:env1:tasks'' ''env:env1:sharedQueue'' 150 enqueued)
     = Inr (Some (''a'', 100))"
  by (simp add: callDequeueMessage_def enqueued_redis demo_def demoMarQS_def demoKeys_def
      visibilityTimeoutInMs_def MESSAGE_VISIBILITY_TIMEOUT_QUEUE_def store_eval
      split: prod.splits)

lemma leased_redis:
  "redis leased =
     \<lparr>strings = (\<lambda>k. None)(''message:a'' \<mapsto> demoStringify payloadA),
      zsets = (\<lambda>k. [])(''queue:env1:tasks'' := [],
                          ''env:env1:sharedQueue'' := [],
                          ''msgVisibilityTimeout'' := [(''a'', 300150)]),
      sets = (\<lambda>k. {})(''cc:env1:tasks'' := {''a''}, ''ecc:env1'' := {''a''},
                         ''occ:env1'' := {''a''})\<rparr>"
  by (simp add: leased_def dequeueMessageInEnv_def dequeueFrom_def callDequeueMessage_def
      enqueued_redis demo_def demoMarQS_def demoKeys_def visibilityTimeoutInMs_def
      MESSAGE_VISIBILITY_TIMEOUT_QUEUE_def store_eval fun_upd_twist split: prod.splits)

section \<open>Enqueue, then dequeue\<close>

lemma dequeue_lua_strings:
  "strings (snd (dequeueMessage_lua tn cq pq vq cl el ol cc ec oc name vt now dq de dor s))
     = strings s"
  by (simp add: dequeueMessage_lua_def Let_def ZREM_def ZADD_def SADD_def
           split: option.splits list.splits prod.splits)

lemma callDequeueMessage_redis:
  "redis (snd (callDequeueMessage M mq pq vq cl el ol cc ec oc now w))
     = snd (dequeueMessage_lua (lua_tonumber M) mq pq vq cl el ol cc ec oc mq
              (visibilityTimeoutInMs M) now (defaultQueueConcurrency M)
              (defaultEnvConcurrency M) (defaultOrgConcurrency M) (redis w))"
  by (simp add: callDequeueMessage_def split: prod.splits)

lemma callDequeueMessage_strings:
  "strings (redis (snd (callDequeueMessage M mq pq vq cl el ol cc ec oc now w)))
     = strings (redis w)"
  by (simp add: callDequeueMessage_redis dequeue_lua_strings)

lemma dequeueFrom_world:
  "mq \<noteq> [] \<Longrightarrow>
   snd (dequeueFrom M parent (Some mq) now w) = snd (dequeueScript M mq parent now w)"
  by (simp add: dequeueFrom_def split: prod.splits sum.splits option.splits)

lemma dequeueFrom_idle:
  "choice = None \<or> choice = Some [] \<Longrightarrow> snd (dequeueFrom M parent choice now w) = w"
  by (auto simp: dequeueFrom_def)

lemma dequeueFrom_strings:
  "strings (redis (snd (dequeueFrom M parent choice now w))) = strings (redis w)"
proof (cases "choice = None \<or> choice = Some []")
  case True
  then show ?thesis by (simp add: dequeueFrom_idle)
next
  case False
  then obtain mq where "choice = Some mq" "mq \<noteq> []" by (cases choice) auto
  then show ?thesis
    by (simp add: dequeueFrom_world callDequeueMessage_strings)
qed

lemma dequeues_strings:
  "\<forall>c \<in> set cs. isDequeue c \<Longrightarrow> strings (redis (performAll M cs w)) = strings (redis w)"
proof (induction cs arbitrary: w)
  case Nil
  then show ?case by simp
next
  case (Cons c cs)
  have "isDequeue c" using Cons.prems by simp
  then have "strings (redis (perform M c w)) = strings (redis w)"
    by (cases c)
       (simp_all add: dequeueMessageInEnv_def dequeueMessageInSharedQueue_def
          dequeueFrom_strings)
  then show ?case using Cons by simp
qed

lemma enqueue_lua_body:
  "strings (enqueueMessage_lua q pq mk name mid body sc s) mk = Some body"
  by (simp add: enqueueMessage_lua_def Let_def SET_def ZADD_def)

text \<open>
  Claim C3. Let \<open>p\<close> be the payload \<^verbatim>\<open>enqueueMessage\<close> builds, and let the parse give
  \<open>p\<close> back from the text \<^verbatim>\<open>JSON.stringify\<close> makes of it. After the enqueue and any
  sequence of dequeue calls, a dequeue call (in an environment or on the shared queue)
  whose script hands out the id returns \<open>p\<close>: its data is the enqueued data with the
  trace context injected, its message id is the id, and its queue is the child queue key
  that the key producer made of the environment, the queue and the concurrency key.
\<close>

theorem enqueue_then_dequeue_round_trip:
  assumes "p = \<lparr>version = ''1'', data = propagation_inject M d,
                queue = queueKey (keys M) env q ck, concurrencyKey = ck, timestamp = now,
                messageId = mid, parentQueue = envSharedQueueKey (keys M) env\<rparr>"
    and "parseMessagePayload M (JSON_stringify M p) = Success p"
    and "JSON_stringify M p \<noteq> []"
    and "\<forall>c \<in> set cs. isDequeue c"
    and "w' = performAll M cs (enqueueMessage M env q mid d ck now w)"
    and "mq \<noteq> []"
  shows "(fst (dequeueScript M mq (envSharedQueueKey (keys M) env') t w') = Inr (Some (mid, sc))
            \<longrightarrow> fst (dequeueMessageInEnv M env' (Some mq) t w') = Inr (Some p))
       \<and> (fst (dequeueScript M mq SHARED_QUEUE t w') = Inr (Some (mid, sc))
            \<longrightarrow> fst (dequeueMessageInSharedQueue M (Some mq) t w') = Inr (Some p))
       \<and> data p = propagation_inject M d \<and> messageId p = mid
       \<and> queue p = queueKey (keys M) env q ck"
proof -
  have body: "strings (redis w') (messageKey (keys M) mid) = Some (JSON_stringify M p)"
    using assms(1,4,5)
    by (simp add: dequeues_strings enqueueMessage_def callEnqueueMessage_def Let_def
        enqueue_lua_body)
  have read: "readMessage M mid w'' = Inr (Some p)"
    if "strings (redis w'') = strings (redis w')" for w''
    using that body assms(2,3) by (simp add: readMessage_def GET_def)
  have via: "fst (dequeueFrom M parent (Some mq) t w') = Inr (Some p)"
    if h: "fst (dequeueScript M mq parent t w') = Inr (Some (mid, sc))" for parent
  proof -
    obtain w'' where r: "dequeueScript M mq parent t w' = (Inr (Some (mid, sc)), w'')"
      using h by (cases "dequeueScript M mq parent t w'") auto
    have "strings (redis w'') = strings (redis w')"
      using callDequeueMessage_strings [of M mq parent] r by (metis snd_conv)
    then show ?thesis
      using r assms(6) read by (simp add: dequeueFrom_def)
  qed
  show ?thesis
    using via assms(1) by (simp add: dequeueMessageInEnv_def dequeueMessageInSharedQueue_def)
qed

theorem enqueue_then_dequeue_round_trip_witness:
  "fst (dequeueScript demo ''queue:env1:tasks'' ''env:env1:sharedQueue'' 150
          (performAll demo
             [DequeueInSharedQueue None 120, DequeueInEnv ''env1'' (Some ''queue:env1:tasks'') 50]
             enqueued))
     = Inr (Some (''a'', 100))
   \<and> fst (dequeueMessageInEnv demo ''env1'' (Some ''queue:env1:tasks'') 150
           (performAll demo
              [DequeueInSharedQueue None 120, DequeueInEnv ''env1'' (Some ''queue:env1:tasks'') 50]
              enqueued))
     = Inr (Some payloadA)
   \<and> fst (dequeueScript demo ''queue:env1:tasks'' SHARED_QUEUE 150
          (performAll demo
             [DequeueInSharedQueue None 120, DequeueInEnv ''env1'' (Some ''queue:env1:tasks'') 50]
             enqueued))
     = Inr (Some (''a'', 100))
   \<and> fst (dequeueMessageInSharedQueue demo (Some ''queue:env1:tasks'') 150
           (performAll demo
              [DequeueInSharedQueue None 120, DequeueInEnv ''env1'' (Some ''queue:env1:tasks'') 50]
              enqueued))
     = Inr (Some payloadA)
   \<and> data payloadA = ''traceparent;{x:1}'' \<and> messageId payloadA = ''a''
   \<and> queue payloadA = ''queue:env1:tasks''"
proof -
  let ?cs = "[DequeueInSharedQueue None 120,
              DequeueInEnv ''env1'' (Some ''queue:env1:tasks'') 50] :: (string, string) operation list"
  have p: "payloadA = \<lparr>version = ''1'', data = propagation_inject demo ''{x:1}'',
                queue = queueKey (keys demo) ''env1'' ''tasks'' None, concurrencyKey = None,
                timestamp = 100, messageId = ''a'',
                parentQueue = envSharedQueueKey (keys demo) ''env1''\<rparr>"
    by (simp add: broker_eval)
  have codec: "parseMessagePayload demo (JSON_stringify demo payloadA) = Success payloadA"
    and nonempty: "JSON_stringify demo payloadA \<noteq> []"
    using demo_round_trip by simp_all
  have deqs: "\<forall>c \<in> set ?cs. isDequeue c" by simp
  have w': "performAll demo ?cs enqueued
      = performAll demo ?cs (enqueueMessage demo ''env1'' ''tasks'' ''a'' ''{x:1}'' None 100 emptyWorld)"
    by (simp add: enqueued_def)
  have mq: "''queue:env1:tasks'' \<noteq> []" by simp
  have early: "redis (snd (dequeueMessageInEnv demo ''env1'' (Some ''queue:env1:tasks'') 50 enqueued))
      = redis enqueued"
    by (simp add: dequeueMessageInEnv_def dequeueFrom_world callDequeueMessage_redis
      enqueued_redis demo_def demoMarQS_def demoKeys_def visibilityTimeoutInMs_def
      MESSAGE_VISIBILITY_TIMEOUT_QUEUE_def store_eval)
  have same: "redis (performAll demo ?cs enqueued) = redis enqueued"
    using early by (simp add: dequeueMessageInSharedQueue_def dequeueFrom_idle)
  have handed: "fst (dequeueScript demo ''queue:env1:tasks'' (envSharedQueueKey (keys demo) ''env1'')
          150 (performAll demo ?cs enqueued)) = Inr (Some (''a'', 100))"
    using same
    by (simp add: callDequeueMessage_def enqueued_redis demo_def demoMarQS_def demoKeys_def
      visibilityTimeoutInMs_def MESSAGE_VISIBILITY_TIMEOUT_QUEUE_def store_eval
      split: prod.splits)
  have handed': "fst (dequeueScript demo ''queue:env1:tasks'' SHARED_QUEUE
          150 (performAll demo ?cs enqueued)) = Inr (Some (''a'', 100))"
    using same
    by (simp add: callDequeueMessage_def enqueued_redis demo_def demoMarQS_def demoKeys_def
      visibilityTimeoutInMs_def MESSAGE_VISIBILITY_TIMEOUT_QUEUE_def SHARED_QUEUE_def store_eval
      split: prod.splits)
  have key: "envSharedQueueKey (keys demo) ''env1'' = ''env:env1:sharedQueue''"
    by (simp add: broker_eval)
  have res: "fst (dequeueMessageInEnv demo ''env1'' (Some ''queue:env1:tasks'') 150
                   (performAll demo ?cs enqueued)) = Inr (Some payloadA)
      \<and> fst (dequeueMessageInSharedQueue demo (Some ''queue:env1:tasks'') 150
                   (performAll demo ?cs enqueued)) = Inr (Some payloadA)"
    using handed handed'
      enqueue_then_dequeue_round_trip [OF p codec nonempty deqs w' mq,
        where env' = "''env1''" and t = 150 and sc = 100]
    by blast
  have fields: "data payloadA = ''traceparent;{x:1}'' \<and> messageId payloadA = ''a''
      \<and> queue payloadA = ''queue:env1:tasks''"
    by (simp add: payloadA_def)
  show ?thesis
    using res fields handed handed' unfolding key by blast
qed

section \<open>Operations on a message whose body cannot be read\<close>

lemma readMessage_none_iff:
  "readMessage M mid w = Inr None \<longleftrightarrow>
     (GET (messageKey (keys M) mid) (redis w) = None
      \<or> GET (messageKey (keys M) mid) (redis w) = Some []
      \<or> (\<exists>raw. GET (messageKey (keys M) mid) (redis w) = Some raw
                \<and> parseMessagePayload M raw = Failure))"
  by (auto simp: readMessage_def split: option.splits parsed.splits)

lemma readMessage_throws_iff:
  "readMessage M mid w = Inl e \<longleftrightarrow>
     (e = JsonSyntaxError
      \<and> (\<exists>raw. GET (messageKey (keys M) mid) (redis w) = Some raw \<and> raw \<noteq> []
                \<and> parseMessagePayload M raw = Throws))"
  by (auto simp: readMessage_def split: option.splits parsed.splits)

text \<open>
  When the body of the message is absent (or empty), or is JSON that is not a payload,
  \<^verbatim>\<open>acknowledgeMessage\<close>, \<^verbatim>\<open>nackMessage\<close> and \<^verbatim>\<open>replaceMessage\<close> return and leave
  the world as it was: the store is unchanged and no script has been invoked. So an
  occurrence of the id in the visibility queue or in a current-concurrency set is still
  there afterwards.
\<close>

lemma unreadable_body_returns:
  assumes "GET (messageKey (keys M) mid) (redis w) = None
    \<or> GET (messageKey (keys M) mid) (redis w) = Some []
    \<or> (\<exists>raw. GET (messageKey (keys M) mid) (redis w) = Some raw
              \<and> parseMessagePayload M raw = Failure)"
  shows "acknowledgeMessage M mid w = (Inr (), w)"
    and "nackMessage M mid retryAt now w = (Inr (), w)"
    and "replaceMessage M mid messageData ts now w = (Inr (), w)"
proof -
  have "readMessage M mid w = Inr None"
    using assms by (simp add: readMessage_none_iff)
  then show "acknowledgeMessage M mid w = (Inr (), w)"
    and "nackMessage M mid retryAt now w = (Inr (), w)"
    and "replaceMessage M mid messageData ts now w = (Inr (), w)"
    by (simp_all add: acknowledgeMessage_def nackMessage_def replaceMessage_def)
qed

lemma unreadable_body_returns_example:
  "GET ''message:a'' (redis bodyGone) = None
   \<and> ZSCORE ''msgVisibilityTimeout'' ''a'' (redis bodyGone) = Some 300150
   \<and> ''a'' \<in> sets (redis bodyGone) ''cc:env1:tasks''
   \<and> acknowledgeMessage demo ''a'' bodyGone = (Inr (), bodyGone)
   \<and> nackMessage demo ''a'' None 400000 bodyGone = (Inr (), bodyGone)
   \<and> replaceMessage demo ''a'' ''{x:2}'' None 400000 bodyGone = (Inr (), bodyGone)"
proof -
  have mk: "messageKey (keys demo) ''a'' = ''message:a''"
    by (simp add: broker_eval)
  have gone: "GET ''message:a'' (redis bodyGone) = None"
    and stale: "ZSCORE ''msgVisibilityTimeout'' ''a'' (redis bodyGone) = Some 300150"
       "''a'' \<in> sets (redis bodyGone) ''cc:env1:tasks''"
    by (simp_all add: bodyGone_def leased_redis GET_def ZSCORE_def)
  have "GET (messageKey (keys demo) ''a'') (redis bodyGone) = None
    \<or> GET (messageKey (keys demo) ''a'') (redis bodyGone) = Some []
    \<or> (\<exists>raw. GET (messageKey (keys demo) ''a'') (redis bodyGone) = Some raw
              \<and> parseMessagePayload demo raw = Failure)"
    using gone mk by simp
  from unreadable_body_returns [OF this] gone stale show ?thesis
    by simp
qed

text \<open>
  When the body is text that is not JSON, \<^verbatim>\<open>JSON.parse\<close> throws in \<^verbatim>\<open>#readMessage\<close>,
  which catches nothing, and the three operations throw in their turn. They have invoked
  no script and the store is as it was.
\<close>

lemma body_not_json_throws:
  assumes "GET (messageKey (keys M) mid) (redis w) = Some raw" and "raw \<noteq> []"
    and "parseMessagePayload M raw = Throws"
  shows "acknowledgeMessage M mid w = (Inl JsonSyntaxError, w)"
    and "nackMessage M mid retryAt now w = (Inl JsonSyntaxError, w)"
    and "replaceMessage M mid messageData ts now w = (Inl JsonSyntaxError, w)"
proof -
  have "readMessage M mid w = Inl JsonSyntaxError"
    using assms by (simp add: readMessage_throws_iff)
  then show "acknowledgeMessage M mid w = (Inl JsonSyntaxError, w)"
    and "nackMessage M mid retryAt now w = (Inl JsonSyntaxError, w)"
    and "replaceMessage M mid messageData ts now w = (Inl JsonSyntaxError, w)"
    by (simp_all add: acknowledgeMessage_def nackMessage_def replaceMessage_def)
qed

text \<open>
  Claim C10. The three operations are to return, with no script invoked and the store
  unchanged, when the body is absent or cannot be parsed. In the world \<open>bodyNotJson\<close> the
  id \<open>a\<close> is leased and its body is the text \<^verbatim>\<open>{\<close>, which is not JSON: there
  \<^verbatim>\<open>acknowledgeMessage\<close>, \<^verbatim>\<open>nackMessage\<close> and \<^verbatim>\<open>replaceMessage\<close> do not return, they
  throw the syntax error of \<^verbatim>\<open>JSON.parse\<close>. The world is as it was, the id still in the
  visibility queue and in the current-concurrency set of its queue.
\<close>

theorem operations_throw_on_body_that_is_not_json:
  "GET ''message:a'' (redis bodyNotJson) = Some ''{''
   \<and> parseMessagePayload demo ''{'' = Throws
   \<and> ZSCORE ''msgVisibilityTimeout'' ''a'' (redis bodyNotJson) = Some 300150
   \<and> ''a'' \<in> sets (redis bodyNotJson) ''cc:env1:tasks''
   \<and> acknowledgeMessage demo ''a'' bodyNotJson = (Inl JsonSyntaxError, bodyNotJson)
   \<and> nackMessage demo ''a'' None 400000 bodyNotJson = (Inl JsonSyntaxError, bodyNotJson)
   \<and> replaceMessage demo ''a'' ''{x:2}'' None 400000 bodyNotJson
       = (Inl JsonSyntaxError, bodyNotJson)"
proof -
  have mk: "messageKey (keys demo) ''a'' = ''message:a''"
    by (simp add: broker_eval)
  have bad: "GET ''message:a'' (redis bodyNotJson) = Some ''{''"
    and stale: "ZSCORE ''msgVisibilityTimeout'' ''a'' (redis bodyNotJson) = Some 300150"
       "''a'' \<in> sets (redis bodyNotJson) ''cc:env1:tasks''"
    by (simp_all add: bodyNotJson_def leased_redis GET_def SET_def ZSCORE_def)
  have throws: "parseMessagePayload demo ''{'' = Throws"
    by (simp add: broker_eval)
  have read: "readMessage demo ''a'' bodyNotJson = Inl JsonSyntaxError"
    using bad throws mk by (simp add: readMessage_def)
  have "acknowledgeMessage demo ''a'' bodyNotJson = (Inl JsonSyntaxError, bodyNotJson)"
    and "nackMessage demo ''a'' None 400000 bodyNotJson = (Inl JsonSyntaxError, bodyNotJson)"
    and "replaceMessage demo ''a'' ''{x:2}'' None 400000 bodyNotJson
           = (Inl JsonSyntaxError, bodyNotJson)"
    using read by (simp_all add: acknowledgeMessage_def nackMessage_def replaceMessage_def)
  then show ?thesis
    using bad stale throws by simp
qed

section \<open>The requeuer\<close>

text \<open>
  What a cycle of the requeuer reads: at most 10 ids, each in the visibility queue with
  a score from 0 to \<open>now\<close>.
\<close>

lemma expiredMessages_bounds:
  "length (expiredMessages now w) \<le> 10
   \<and> (\<forall>m \<in> set (expiredMessages now w).
         \<exists>sc. (m, sc) \<in> set (zsets (redis w) MESSAGE_VISIBILITY_TIMEOUT_QUEUE)
              \<and> 0 \<le> sc \<and> sc \<le> now)"
proof -
  let ?due = "filter (\<lambda>(m, sc). 0 \<le> sc \<and> sc \<le> now)
                (zsorted (zsets (redis w) MESSAGE_VISIBILITY_TIMEOUT_QUEUE))"
  have e: "expiredMessages now w = map fst (take 10 ?due)"
    by (simp add: expiredMessages_def ZRANGEBYSCORE_def)
  have "\<exists>sc. (m, sc) \<in> set (zsets (redis w) MESSAGE_VISIBILITY_TIMEOUT_QUEUE)
              \<and> 0 \<le> sc \<and> sc \<le> now"
    if "m \<in> set (expiredMessages now w)" for m
  proof -
    have "m \<in> fst ` set (take 10 ?due)"
      using that e by simp
    then obtain x where x: "x \<in> set (take 10 ?due)" "fst x = m"
      by blast
    have "x \<in> set ?due" using x(1) by (rule in_set_takeD)
    then have "(fst x, snd x) \<in> set (zsets (redis w) MESSAGE_VISIBILITY_TIMEOUT_QUEUE)
        \<and> 0 \<le> snd x \<and> snd x \<le> now"
      by (auto simp: case_prod_beta)
    with x(2) show ?thesis by blast
  qed
  then show ?thesis using e by simp
qed

text \<open>
  What the cycle does with one id: a missing (or empty) body and a body that is JSON but
  no payload make it remove the id from the visibility queue, and nothing else; a body
  that is a payload makes it invoke the nack script with the timestamp of the payload as
  the score.
\<close>

lemma requeueMessage_unusable:
  "GET (messageKey (keys M) m) (redis w) = None
   \<or> GET (messageKey (keys M) m) (redis w) = Some []
   \<or> (\<exists>raw. GET (messageKey (keys M) m) (redis w) = Some raw
             \<and> parseMessagePayload M raw = Failure)
   \<Longrightarrow> requeueMessage M now m w
         = Inr (w\<lparr>redis := ZREM MESSAGE_VISIBILITY_TIMEOUT_QUEUE m (redis w)\<rparr>)"
  by (auto simp: requeueMessage_def)

lemma requeueMessage_payload:
  "GET (messageKey (keys M) m) (redis w) = Some raw \<Longrightarrow> raw \<noteq> []
   \<Longrightarrow> parseMessagePayload M raw = Success p
   \<Longrightarrow> requeueMessage M now m w
         = Inr (callNackMessage (messageKey (keys M) m) (queue p) (parentQueue p)
                  (currentConcurrencyKeyFromQueue (keys M) (queue p))
                  (envCurrentConcurrencyKeyFromQueue (keys M) (queue p))
                  (orgCurrentConcurrencyKeyFromQueue (keys M) (queue p))
                  MESSAGE_VISIBILITY_TIMEOUT_QUEUE (messageId p) (timestamp p) now w)"
  by (simp add: requeueMessage_def)

lemma requeueMessage_not_json:
  "GET (messageKey (keys M) m) (redis w) = Some raw \<Longrightarrow> raw \<noteq> []
   \<Longrightarrow> parseMessagePayload M raw = Throws
   \<Longrightarrow> requeueMessage M now m w = Inl JsonSyntaxError"
  by (simp add: requeueMessage_def)

text \<open>
  Claim C8 fails on a body that does not parse as JSON: \<^verbatim>\<open>JSON.parse\<close> throws, nothing
  catches it in \<^verbatim>\<open>#requeueVisibleMessages\<close>, and the cycle ends with the id still in the
  visibility queue. Here the lease of \<open>a\<close> ran out at 300150, the cycle runs at 400000
  and reads \<open>a\<close>, whose body is \<open>{\<close>.
\<close>

theorem requeuer_keeps_id_whose_body_is_not_json:
  "expiredMessages 400000 bodyNotJson = [''a'']
   \<and> GET (messageKey (keys demo) ''a'') (redis bodyNotJson) = Some ''{''
   \<and> parseMessagePayload demo ''{'' = Throws
   \<and> requeueVisibleMessages demo 400000 bodyNotJson = (Inl JsonSyntaxError, bodyNotJson)
   \<and> ZSCORE MESSAGE_VISIBILITY_TIMEOUT_QUEUE ''a'' (redis bodyNotJson) = Some 300150"
proof -
  have e: "expiredMessages 400000 bodyNotJson = [''a'']"
    by (simp add: expiredMessages_def bodyNotJson_def leased_redis
        MESSAGE_VISIBILITY_TIMEOUT_QUEUE_def ZRANGEBYSCORE_def zsorted_def SET_def)
  have b: "GET (messageKey (keys demo) ''a'') (redis bodyNotJson) = Some ''{''"
    by (simp add: bodyNotJson_def leased_redis GET_def SET_def demo_def demoMarQS_def
        demoKeys_def)
  have t: "parseMessagePayload demo ''{'' = Throws"
    by (simp add: broker_eval)
  have r: "requeueMessage demo 400000 ''a'' bodyNotJson = Inl JsonSyntaxError"
    using b t by (simp add: requeueMessage_not_json)
  have z: "ZSCORE MESSAGE_VISIBILITY_TIMEOUT_QUEUE ''a'' (redis bodyNotJson) = Some 300150"
    by (simp add: bodyNotJson_def leased_redis ZSCORE_def SET_def
        MESSAGE_VISIBILITY_TIMEOUT_QUEUE_def)
  show ?thesis
    using e b t r z by (simp add: requeueVisibleMessages_def)
qed

section \<open>Heartbeats\<close>

lemma heartbeat_lua_score:
  "ZSCORE vq mid s = Some d \<Longrightarrow> d \<noteq> 0 \<Longrightarrow>
   ZSCORE vq mid (heartbeatMessage_lua vq mid milliseconds maxVisibilityTimeout s)
     = Some (min (d + milliseconds * 1000) maxVisibilityTimeout)"
  by (simp add: heartbeatMessage_lua_def scoreOrZero_def ZSCORE_def ZADD_def Let_def
      update_conv')

lemma heartbeat_lua_other:
  "mid' \<noteq> mid \<Longrightarrow>
   ZSCORE vq mid (heartbeatMessage_lua vq mid' milliseconds maxVisibilityTimeout s)
     = ZSCORE vq mid s"
  by (simp add: heartbeatMessage_lua_def scoreOrZero_def ZSCORE_def ZADD_def Let_def
      update_conv')

lemma heartbeatMessage_invokes:
  "invoked (heartbeatMessage M mid seconds now w)
     = invoked w @
       [HeartbeatMessage MESSAGE_VISIBILITY_TIMEOUT_QUEUE mid
          ((case seconds of None \<Rightarrow> 30 | Some n \<Rightarrow> n) * 1000)
          (now + visibilityTimeoutInMs M)]"
  by (simp add: heartbeatMessage_def callHeartbeatMessage_def)

text \<open>
  Claim C1 is what the comments of the code say, and the script does something else: it
  multiplies by 1000 the extension that \<^verbatim>\<open>heartbeatMessage\<close> has already converted to
  milliseconds. With a deadline of 300150 and a visibility timeout of 300000,
  \<^verbatim>\<open>heartbeatMessage("a", 30)\<close> at time 100000 invokes the script with the extension
  30000 and the bound 400000, and the script sets the deadline to 400000; the claim
  gives \<open>min (300150 + 30000) 400000\<close>, which is 330150.
\<close>

theorem heartbeat_extension_is_multiplied_twice:
  "ZSCORE MESSAGE_VISIBILITY_TIMEOUT_QUEUE ''a'' (redis leased) = Some 300150
   \<and> invoked (heartbeatMessage demo ''a'' (Some 30) 100000 leased)
       = invoked leased @ [HeartbeatMessage MESSAGE_VISIBILITY_TIMEOUT_QUEUE ''a'' 30000 400000]
   \<and> ZSCORE MESSAGE_VISIBILITY_TIMEOUT_QUEUE ''a''
       (redis (heartbeatMessage demo ''a'' (Some 30) 100000 leased)) = Some 400000
   \<and> min (300150 + 30000) 400000 = (330150::int)"
  by (simp add: heartbeatMessage_def callHeartbeatMessage_def leased_redis demo_def
      demoMarQS_def visibilityTimeoutInMs_def MESSAGE_VISIBILITY_TIMEOUT_QUEUE_def
      heartbeatMessage_lua_def scoreOrZero_def ZSCORE_def ZADD_def)

section \<open>The visibility deadline under sequences of operations\<close>

text \<open>
  What each script can do to the score of an id in the visibility queue \<open>V\<close>, when the
  queues it writes to (other than the visibility queue of the dequeue and heartbeat
  scripts) are not \<open>V\<close>: leave it or remove it, and, for dequeue and heartbeat, set it to
  a value that is at most the bound the script was given.
\<close>

lemma enqueue_lua_deadline:
  "q \<noteq> V \<Longrightarrow> pq \<noteq> V \<Longrightarrow>
   ZSCORE V mid (enqueueMessage_lua q pq mk name m body sc s) = ZSCORE V mid s"
  by (simp add: enqueueMessage_lua_def Let_def ZSCORE_def rebalance_zsets_other ZADD_def SET_def)

lemma dequeue_success_form:
  assumes "fst (dequeueMessage_lua tn cq pq vq cl el ol cc ec oc name vt now dq de dor s)
             = Inr (Some (m, sc))"
  shows "snd (dequeueMessage_lua tn cq pq vq cl el ol cc ec oc name vt now dq de dor s)
           = rebalanceParentQueue cq pq name
               (SADD oc m (SADD ec m (SADD cc m (ZADD vq (now + vt) m (ZREM cq m s)))))"
  using assms
  by (auto simp: dequeueMessage_lua_def Let_def split: option.splits if_splits list.splits)

lemma dequeue_lua_deadline:
  assumes "pq \<noteq> V"
    and "ZSCORE V mid (snd (dequeueMessage_lua tn cq pq V cl el ol cc ec oc name vt now dq de dor s))
           = Some d"
  shows "ZSCORE V mid s = Some d \<or> d = now + vt"
proof (cases "\<exists>x. fst (dequeueMessage_lua tn cq pq V cl el ol cc ec oc name vt now dq de dor s)
                     = Inr (Some x)")
  case False
  then show ?thesis
    using assms(2) dequeue_unchanged_unless_success [of tn cq pq V cl el ol cc ec oc name vt now
        dq de dor s] by simp
next
  case True
  then obtain m sc where
    "fst (dequeueMessage_lua tn cq pq V cl el ol cc ec oc name vt now dq de dor s)
       = Inr (Some (m, sc))" by auto
  from dequeue_success_form [OF this] assms show ?thesis
    by (auto simp: ZSCORE_def rebalance_zsets_other SADD_def ZADD_def ZREM_def update_conv'
          delete_conv' split: if_splits)
qed

lemma acknowledge_lua_deadline:
  "ZSCORE V mid (acknowledgeMessage_lua mk V cc ec oc m s) = Some d \<Longrightarrow> ZSCORE V mid s = Some d"
  by (auto simp: acknowledgeMessage_lua_def Let_def ZSCORE_def DEL_def ZREM_def SREM_def
        delete_conv' split: if_splits)

lemma nack_lua_deadline:
  "cq \<noteq> V \<Longrightarrow> pq \<noteq> V \<Longrightarrow>
   ZSCORE V mid (nackMessage_lua mk cq pq cc ec oc V name m now sc s) = Some d
   \<Longrightarrow> ZSCORE V mid s = Some d"
  by (auto simp: nackMessage_lua_def Let_def ZSCORE_def rebalance_zsets_other ZADD_def ZREM_def
        SREM_def delete_conv' split: if_splits)

lemma heartbeat_lua_deadline:
  "ZSCORE V mid (heartbeatMessage_lua V m milliseconds maxVisibilityTimeout s) = Some d
   \<Longrightarrow> ZSCORE V mid s = Some d \<or> d \<le> maxVisibilityTimeout"
  by (auto simp: heartbeatMessage_lua_def Let_def ZSCORE_def ZADD_def update_conv'
        split: if_splits)

lemma ZREM_deadline:
  "ZSCORE V mid (ZREM V m s) = Some d \<Longrightarrow> ZSCORE V mid s = Some d"
  by (auto simp: ZSCORE_def ZREM_def delete_conv' split: if_splits)

text \<open>The same for the operations of the broker, on the visibility queue of the broker.\<close>

lemma dequeueFrom_deadline:
  assumes "parent \<noteq> MESSAGE_VISIBILITY_TIMEOUT_QUEUE"
    and "ZSCORE MESSAGE_VISIBILITY_TIMEOUT_QUEUE mid
           (redis (snd (dequeueFrom M parent choice now w))) = Some d"
  shows "ZSCORE MESSAGE_VISIBILITY_TIMEOUT_QUEUE mid (redis w) = Some d
         \<or> d \<le> now + visibilityTimeoutInMs M"
proof (cases "choice = None \<or> choice = Some []")
  case True
  then show ?thesis using assms(2) by (simp add: dequeueFrom_idle)
next
  case False
  then obtain mq where "choice = Some mq" "mq \<noteq> []" by (cases choice) auto
  then have "ZSCORE MESSAGE_VISIBILITY_TIMEOUT_QUEUE mid (redis w) = Some d
         \<or> d = now + visibilityTimeoutInMs M"
    using assms dequeue_lua_deadline [of parent MESSAGE_VISIBILITY_TIMEOUT_QUEUE mid]
    by (simp add: dequeueFrom_world callDequeueMessage_redis)
  then show ?thesis by auto
qed

lemma callNackMessage_deadline:
  "cq \<noteq> MESSAGE_VISIBILITY_TIMEOUT_QUEUE \<Longrightarrow> pq \<noteq> MESSAGE_VISIBILITY_TIMEOUT_QUEUE \<Longrightarrow>
   ZSCORE MESSAGE_VISIBILITY_TIMEOUT_QUEUE mid
     (redis (callNackMessage mk cq pq cc ec oc MESSAGE_VISIBILITY_TIMEOUT_QUEUE m sc now w)) = Some d
   \<Longrightarrow> ZSCORE MESSAGE_VISIBILITY_TIMEOUT_QUEUE mid (redis w) = Some d"
  using nack_lua_deadline [of cq MESSAGE_VISIBILITY_TIMEOUT_QUEUE pq mid mk cc ec oc cq m now sc
      "redis w" d]
  by (simp add: callNackMessage_def)

lemma readMessage_stored:
  "readMessage M m w = Inr (Some p) \<Longrightarrow>
   \<exists>raw. GET (messageKey (keys M) m) (redis w) = Some raw \<and> parseMessagePayload M raw = Success p"
  by (auto simp: readMessage_def split: option.splits if_splits parsed.splits)

text \<open>
  The bodies in the store: which operations write them, and that the queue keys of the
  stored payloads stay off the visibility queue when those of the key producer are.
\<close>

lemma bodiesOffVisibility_empty: "bodiesOffVisibility M emptyStore"
  by (simp add: bodiesOffVisibility_def emptyStore_def GET_def)

lemma bodiesOffVisibility_same:
  "strings s' = strings s \<Longrightarrow> bodiesOffVisibility M s \<Longrightarrow> bodiesOffVisibility M s'"
  by (simp add: bodiesOffVisibility_def GET_def)

lemma bodiesOffVisibility_deleted:
  "strings s' = (strings s)(k := None) \<Longrightarrow> bodiesOffVisibility M s
   \<Longrightarrow> bodiesOffVisibility M s'"
  by (auto simp: bodiesOffVisibility_def GET_def split: if_splits)

lemma bodiesOffVisibility_written:
  "strings s' = (strings s)(k \<mapsto> body) \<Longrightarrow> bodiesOffVisibility M s
   \<Longrightarrow> \<forall>p. parseMessagePayload M body = Success p \<longrightarrow>
         queue p \<noteq> MESSAGE_VISIBILITY_TIMEOUT_QUEUE
         \<and> parentQueue p \<noteq> MESSAGE_VISIBILITY_TIMEOUT_QUEUE
   \<Longrightarrow> bodiesOffVisibility M s'"
  by (auto simp: bodiesOffVisibility_def GET_def split: if_splits)

lemma bodiesOffVisibility_read:
  assumes "bodiesOffVisibility M (redis w)" and "readMessage M m w = Inr (Some p)"
  shows "queue p \<noteq> MESSAGE_VISIBILITY_TIMEOUT_QUEUE"
    and "parentQueue p \<noteq> MESSAGE_VISIBILITY_TIMEOUT_QUEUE"
  using readMessage_stored [OF assms(2)] assms(1)
  by (auto simp: bodiesOffVisibility_def)

lemma round_trip_keeps_queue_keys:
  "\<forall>p. parseMessagePayload M (JSON_stringify M p) = Success p \<Longrightarrow>
   \<forall>p p'. queue p \<noteq> MESSAGE_VISIBILITY_TIMEOUT_QUEUE
          \<and> parentQueue p \<noteq> MESSAGE_VISIBILITY_TIMEOUT_QUEUE
          \<and> parseMessagePayload M (JSON_stringify M p) = Success p'
          \<longrightarrow> queue p' \<noteq> MESSAGE_VISIBILITY_TIMEOUT_QUEUE
              \<and> parentQueue p' \<noteq> MESSAGE_VISIBILITY_TIMEOUT_QUEUE"
  by (metis parsed.inject)

lemma nack_lua_strings:
  "strings (nackMessage_lua mk cq pq cc ec oc vq name m now sc s) = strings s"
  by (simp add: nackMessage_lua_def Let_def SREM_def ZREM_def ZADD_def)

lemma heartbeat_lua_strings:
  "strings (heartbeatMessage_lua vq m milliseconds maxVisibilityTimeout s) = strings s"
  by (simp add: heartbeatMessage_lua_def Let_def ZADD_def)

lemma acknowledge_lua_strings:
  "strings (acknowledgeMessage_lua mk vq cc ec oc m s) = (strings s)(mk := None)"
  by (simp add: acknowledgeMessage_lua_def Let_def DEL_def ZREM_def SREM_def)

lemma enqueue_lua_strings:
  "strings (enqueueMessage_lua q pq mk name m body sc s) = (strings s)(mk \<mapsto> body)"
  by (simp add: enqueueMessage_lua_def Let_def SET_def ZADD_def)

lemma callEnqueueMessage_bodies:
  assumes "\<forall>p p'. queue p \<noteq> MESSAGE_VISIBILITY_TIMEOUT_QUEUE
          \<and> parentQueue p \<noteq> MESSAGE_VISIBILITY_TIMEOUT_QUEUE
          \<and> parseMessagePayload M (JSON_stringify M p) = Success p'
          \<longrightarrow> queue p' \<noteq> MESSAGE_VISIBILITY_TIMEOUT_QUEUE
              \<and> parentQueue p' \<noteq> MESSAGE_VISIBILITY_TIMEOUT_QUEUE"
    and "queue p \<noteq> MESSAGE_VISIBILITY_TIMEOUT_QUEUE"
    and "parentQueue p \<noteq> MESSAGE_VISIBILITY_TIMEOUT_QUEUE"
    and "bodiesOffVisibility M (redis w)"
  shows "bodiesOffVisibility M (redis (callEnqueueMessage M p w))"
proof -
  have s: "strings (redis (callEnqueueMessage M p w))
        = (strings (redis w))(messageKey (keys M) (messageId p) \<mapsto> JSON_stringify M p)"
    by (simp add: callEnqueueMessage_def enqueue_lua_strings)
  have "\<forall>p'. parseMessagePayload M (JSON_stringify M p) = Success p' \<longrightarrow>
         queue p' \<noteq> MESSAGE_VISIBILITY_TIMEOUT_QUEUE
         \<and> parentQueue p' \<noteq> MESSAGE_VISIBILITY_TIMEOUT_QUEUE"
    using assms(1,2,3) by blast
  with s assms(4) show ?thesis by (rule bodiesOffVisibility_written)
qed

lemma callAcknowledgeMessage_bodies:
  "bodiesOffVisibility M (redis w)
   \<Longrightarrow> bodiesOffVisibility M (redis (callAcknowledgeMessage mk vq cc ec oc m w))"
  using bodiesOffVisibility_deleted [of "redis (callAcknowledgeMessage mk vq cc ec oc m w)"
      "redis w" mk M]
  by (simp add: callAcknowledgeMessage_def acknowledge_lua_strings)

lemma callNackMessage_strings:
  "strings (redis (callNackMessage mk cq pq cc ec oc vq m sc now w)) = strings (redis w)"
  by (simp add: callNackMessage_def nack_lua_strings)

lemma requeueMessage_cases:
  assumes "requeueMessage M now m w = Inr w'"
  shows "w' = w\<lparr>redis := ZREM MESSAGE_VISIBILITY_TIMEOUT_QUEUE m (redis w)\<rparr>
       \<or> (\<exists>raw p. GET (messageKey (keys M) m) (redis w) = Some raw
                  \<and> parseMessagePayload M raw = Success p
                  \<and> w' = callNackMessage (messageKey (keys M) m) (queue p) (parentQueue p)
                            (currentConcurrencyKeyFromQueue (keys M) (queue p))
                            (envCurrentConcurrencyKeyFromQueue (keys M) (queue p))
                            (orgCurrentConcurrencyKeyFromQueue (keys M) (queue p))
                            MESSAGE_VISIBILITY_TIMEOUT_QUEUE (messageId p) (timestamp p) now w)"
proof (cases "GET (messageKey (keys M) m) (redis w)")
  case None
  then show ?thesis using assms by (simp add: requeueMessage_def)
next
  case (Some raw)
  show ?thesis
  proof (cases "raw = []")
    case True
    then show ?thesis using assms Some by (simp add: requeueMessage_def)
  next
    case False
    then show ?thesis
      using assms Some by (cases "parseMessagePayload M raw") (simp_all add: requeueMessage_def)
  qed
qed

lemma requeueMessage_strings:
  assumes "requeueMessage M now m w = Inr w'"
  shows "strings (redis w') = strings (redis w)"
  using requeueMessage_cases [OF assms]
  by (auto simp: ZREM_def callNackMessage_strings)

lemma requeueLoop_strings:
  "strings (redis (snd (requeueLoop M now ms w))) = strings (redis w)"
proof (induction ms arbitrary: w)
  case Nil
  then show ?case by simp
next
  case (Cons m ms)
  show ?case
  proof (cases "requeueMessage M now m w")
    case (Inl e)
    then show ?thesis by simp
  next
    case (Inr w')
    then show ?thesis
      using Cons.IH [of w'] requeueMessage_strings [OF Inr] by simp
  qed
qed

lemma requeueMessage_deadline:
  assumes "bodiesOffVisibility M (redis w)"
    and "requeueMessage M now m w = Inr w'"
    and "ZSCORE MESSAGE_VISIBILITY_TIMEOUT_QUEUE mid (redis w') = Some d"
  shows "ZSCORE MESSAGE_VISIBILITY_TIMEOUT_QUEUE mid (redis w) = Some d"
  using requeueMessage_cases [OF assms(2)]
proof
  assume "w' = w\<lparr>redis := ZREM MESSAGE_VISIBILITY_TIMEOUT_QUEUE m (redis w)\<rparr>"
  then show ?thesis
    using assms(3) ZREM_deadline [of MESSAGE_VISIBILITY_TIMEOUT_QUEUE mid m "redis w" d] by simp
next
  assume "\<exists>raw p. GET (messageKey (keys M) m) (redis w) = Some raw
                  \<and> parseMessagePayload M raw = Success p
                  \<and> w' = callNackMessage (messageKey (keys M) m) (queue p) (parentQueue p)
                            (currentConcurrencyKeyFromQueue (keys M) (queue p))
                            (envCurrentConcurrencyKeyFromQueue (keys M) (queue p))
                            (orgCurrentConcurrencyKeyFromQueue (keys M) (queue p))
                            MESSAGE_VISIBILITY_TIMEOUT_QUEUE (messageId p) (timestamp p) now w"
  then obtain raw p where r: "GET (messageKey (keys M) m) (redis w) = Some raw"
      "parseMessagePayload M raw = Success p"
      "w' = callNackMessage (messageKey (keys M) m) (queue p) (parentQueue p)
              (currentConcurrencyKeyFromQueue (keys M) (queue p))
              (envCurrentConcurrencyKeyFromQueue (keys M) (queue p))
              (orgCurrentConcurrencyKeyFromQueue (keys M) (queue p))
              MESSAGE_VISIBILITY_TIMEOUT_QUEUE (messageId p) (timestamp p) now w"
    by blast
  have k: "queue p \<noteq> MESSAGE_VISIBILITY_TIMEOUT_QUEUE"
    "parentQueue p \<noteq> MESSAGE_VISIBILITY_TIMEOUT_QUEUE"
    using assms(1) r(1,2) by (auto simp: bodiesOffVisibility_def)
  show ?thesis
    using assms(3) r(3) callNackMessage_deadline [OF k] by blast
qed

lemma requeueLoop_deadline:
  "bodiesOffVisibility M (redis w)
   \<Longrightarrow> ZSCORE MESSAGE_VISIBILITY_TIMEOUT_QUEUE mid (redis (snd (requeueLoop M now ms w))) = Some d
   \<Longrightarrow> ZSCORE MESSAGE_VISIBILITY_TIMEOUT_QUEUE mid (redis w) = Some d"
proof (induction ms arbitrary: w)
  case Nil
  then show ?case by simp
next
  case (Cons m ms)
  show ?case
  proof (cases "requeueMessage M now m w")
    case (Inl e)
    then show ?thesis using Cons.prems by simp
  next
    case (Inr w')
    have "bodiesOffVisibility M (redis w')"
      using Cons.prems(1) requeueMessage_strings [OF Inr] bodiesOffVisibility_same by blast
    then have "ZSCORE MESSAGE_VISIBILITY_TIMEOUT_QUEUE mid (redis w') = Some d"
      using Cons.IH [of w'] Cons.prems(2) Inr by simp
    with Cons.prems(1) Inr show ?thesis
      by (rule requeueMessage_deadline)
  qed
qed

lemma callAcknowledgeMessage_deadline:
  "ZSCORE MESSAGE_VISIBILITY_TIMEOUT_QUEUE mid
     (redis (callAcknowledgeMessage mk MESSAGE_VISIBILITY_TIMEOUT_QUEUE cc ec oc m w)) = Some d
   \<Longrightarrow> ZSCORE MESSAGE_VISIBILITY_TIMEOUT_QUEUE mid (redis w) = Some d"
  using acknowledge_lua_deadline [of MESSAGE_VISIBILITY_TIMEOUT_QUEUE mid mk cc ec oc m "redis w" d]
  by (simp add: callAcknowledgeMessage_def)

lemma callEnqueueMessage_deadline:
  "queue p \<noteq> MESSAGE_VISIBILITY_TIMEOUT_QUEUE \<Longrightarrow>
   parentQueue p \<noteq> MESSAGE_VISIBILITY_TIMEOUT_QUEUE \<Longrightarrow>
   ZSCORE MESSAGE_VISIBILITY_TIMEOUT_QUEUE mid (redis (callEnqueueMessage M p w))
     = ZSCORE MESSAGE_VISIBILITY_TIMEOUT_QUEUE mid (redis w)"
  by (simp add: callEnqueueMessage_def enqueue_lua_deadline)

lemma acknowledgeMessage_deadline:
  assumes "ZSCORE MESSAGE_VISIBILITY_TIMEOUT_QUEUE mid (redis (snd (acknowledgeMessage M m w))) = Some d"
  shows "ZSCORE MESSAGE_VISIBILITY_TIMEOUT_QUEUE mid (redis w) = Some d"
proof (cases "readMessage M m w")
  case (Inl e)
  then show ?thesis using assms by (simp add: acknowledgeMessage_def)
next
  case (Inr r)
  show ?thesis
  proof (cases r)
    case None
    then show ?thesis using assms Inr by (simp add: acknowledgeMessage_def)
  next
    case (Some p)
    then show ?thesis
      using assms Inr callAcknowledgeMessage_deadline [of mid _ _ _ _ m w d]
      by (simp add: acknowledgeMessage_def)
  qed
qed

lemma acknowledgeMessage_bodies:
  assumes "bodiesOffVisibility M (redis w)"
  shows "bodiesOffVisibility M (redis (snd (acknowledgeMessage M m w)))"
proof (cases "readMessage M m w")
  case (Inl e)
  then show ?thesis using assms by (simp add: acknowledgeMessage_def)
next
  case (Inr r)
  then show ?thesis
    using assms by (cases r) (simp_all add: acknowledgeMessage_def callAcknowledgeMessage_bodies)
qed

lemma nackMessage_strings:
  "strings (redis (snd (nackMessage M m retryAt now w))) = strings (redis w)"
proof (cases "readMessage M m w")
  case (Inl e)
  then show ?thesis by (simp add: nackMessage_def)
next
  case (Inr r)
  then show ?thesis
    by (cases r) (simp_all add: nackMessage_def callNackMessage_strings)
qed

lemma nackMessage_deadline:
  assumes "bodiesOffVisibility M (redis w)"
    and "ZSCORE MESSAGE_VISIBILITY_TIMEOUT_QUEUE mid (redis (snd (nackMessage M m retryAt now w))) = Some d"
  shows "ZSCORE MESSAGE_VISIBILITY_TIMEOUT_QUEUE mid (redis w) = Some d"
proof (cases "readMessage M m w")
  case (Inl e)
  then show ?thesis using assms(2) by (simp add: nackMessage_def)
next
  case (Inr r)
  show ?thesis
  proof (cases r)
    case None
    then show ?thesis using assms(2) Inr by (simp add: nackMessage_def)
  next
    case (Some p)
    then have "readMessage M m w = Inr (Some p)" using Inr by simp
    note k = bodiesOffVisibility_read [OF assms(1) this]
    show ?thesis
      using assms(2) Inr Some callNackMessage_deadline [OF k, of mid _ _ _ _ m _ now w d]
      by (simp add: nackMessage_def)
  qed
qed

lemma replaceMessage_steps:
  assumes "readMessage M m w = Inr (Some old)"
  shows "snd (replaceMessage M m dat ts now w)
     = callEnqueueMessage M
         \<lparr>version = ''1'', data = dat, queue = queue old, concurrencyKey = concurrencyKey old,
          timestamp = (case ts of None \<Rightarrow> now | Some t \<Rightarrow> t), messageId = m,
          parentQueue = parentQueue old\<rparr>
         (callAcknowledgeMessage (messageKey (keys M) m) MESSAGE_VISIBILITY_TIMEOUT_QUEUE
            (currentConcurrencyKeyFromQueue (keys M) (queue old))
            (envCurrentConcurrencyKeyFromQueue (keys M) (queue old))
            (orgCurrentConcurrencyKeyFromQueue (keys M) (queue old)) m w)"
  using assms by (simp add: replaceMessage_def Let_def)

lemma replaceMessage_deadline:
  assumes "bodiesOffVisibility M (redis w)"
    and "ZSCORE MESSAGE_VISIBILITY_TIMEOUT_QUEUE mid
           (redis (snd (replaceMessage M m dat ts now w))) = Some d"
  shows "ZSCORE MESSAGE_VISIBILITY_TIMEOUT_QUEUE mid (redis w) = Some d"
proof (cases "readMessage M m w")
  case (Inl e)
  then show ?thesis using assms(2) by (simp add: replaceMessage_def)
next
  case (Inr r)
  show ?thesis
  proof (cases r)
    case None
    then show ?thesis using assms(2) Inr by (simp add: replaceMessage_def)
  next
    case (Some old)
    then have read: "readMessage M m w = Inr (Some old)" using Inr by simp
    note k = bodiesOffVisibility_read [OF assms(1) read]
    let ?w1 = "callAcknowledgeMessage (messageKey (keys M) m) MESSAGE_VISIBILITY_TIMEOUT_QUEUE
                 (currentConcurrencyKeyFromQueue (keys M) (queue old))
                 (envCurrentConcurrencyKeyFromQueue (keys M) (queue old))
                 (orgCurrentConcurrencyKeyFromQueue (keys M) (queue old)) m w"
    have "ZSCORE MESSAGE_VISIBILITY_TIMEOUT_QUEUE mid (redis ?w1) = Some d"
      using assms(2) k by (simp add: replaceMessage_steps [OF read] callEnqueueMessage_deadline)
    then show ?thesis by (rule callAcknowledgeMessage_deadline)
  qed
qed

lemma replaceMessage_bodies:
  assumes "\<forall>p p'. queue p \<noteq> MESSAGE_VISIBILITY_TIMEOUT_QUEUE
          \<and> parentQueue p \<noteq> MESSAGE_VISIBILITY_TIMEOUT_QUEUE
          \<and> parseMessagePayload M (JSON_stringify M p) = Success p'
          \<longrightarrow> queue p' \<noteq> MESSAGE_VISIBILITY_TIMEOUT_QUEUE
              \<and> parentQueue p' \<noteq> MESSAGE_VISIBILITY_TIMEOUT_QUEUE"
    and "bodiesOffVisibility M (redis w)"
  shows "bodiesOffVisibility M (redis (snd (replaceMessage M m dat ts now w)))"
proof (cases "readMessage M m w")
  case (Inl e)
  then show ?thesis using assms(2) by (simp add: replaceMessage_def)
next
  case (Inr r)
  show ?thesis
  proof (cases r)
    case None
    then show ?thesis using assms(2) Inr by (simp add: replaceMessage_def)
  next
    case (Some old)
    then have read: "readMessage M m w = Inr (Some old)" using Inr by simp
    note k = bodiesOffVisibility_read [OF assms(2) read]
    let ?w1 = "callAcknowledgeMessage (messageKey (keys M) m) MESSAGE_VISIBILITY_TIMEOUT_QUEUE
                 (currentConcurrencyKeyFromQueue (keys M) (queue old))
                 (envCurrentConcurrencyKeyFromQueue (keys M) (queue old))
                 (orgCurrentConcurrencyKeyFromQueue (keys M) (queue old)) m w"
    have "bodiesOffVisibility M (redis ?w1)"
      using assms(2) by (rule callAcknowledgeMessage_bodies)
    then show ?thesis
      using k callEnqueueMessage_bodies [OF assms(1), of _ ?w1]
      by (simp add: replaceMessage_steps [OF read])
  qed
qed

lemma perform_bodies:
  assumes "\<forall>env. envSharedQueueKey (keys M) env \<noteq> MESSAGE_VISIBILITY_TIMEOUT_QUEUE"
    and "\<forall>env q ck. queueKey (keys M) env q ck \<noteq> MESSAGE_VISIBILITY_TIMEOUT_QUEUE"
    and "\<forall>p p'. queue p \<noteq> MESSAGE_VISIBILITY_TIMEOUT_QUEUE
          \<and> parentQueue p \<noteq> MESSAGE_VISIBILITY_TIMEOUT_QUEUE
          \<and> parseMessagePayload M (JSON_stringify M p) = Success p'
          \<longrightarrow> queue p' \<noteq> MESSAGE_VISIBILITY_TIMEOUT_QUEUE
              \<and> parentQueue p' \<noteq> MESSAGE_VISIBILITY_TIMEOUT_QUEUE"
    and "bodiesOffVisibility M (redis w)"
  shows "bodiesOffVisibility M (redis (perform M c w))"
proof (cases c)
  case (Enqueue env q m dat ck now)
  then show ?thesis
    using assms(1,2,4) callEnqueueMessage_bodies [OF assms(3), of _ w]
    by (simp add: enqueueMessage_def Let_def)
next
  case (DequeueInEnv env choice now)
  then show ?thesis
    using assms(4) bodiesOffVisibility_same [OF dequeueFrom_strings]
    by (simp add: dequeueMessageInEnv_def)
next
  case (DequeueInSharedQueue choice now)
  then show ?thesis
    using assms(4) bodiesOffVisibility_same [OF dequeueFrom_strings]
    by (simp add: dequeueMessageInSharedQueue_def)
next
  case (Acknowledge m now)
  then show ?thesis using assms(4) by (simp add: acknowledgeMessage_bodies)
next
  case (Replace m dat ts now)
  then show ?thesis using replaceMessage_bodies [OF assms(3,4)] by simp
next
  case (Nack m retryAt now)
  then show ?thesis
    using assms(4) bodiesOffVisibility_same [OF nackMessage_strings] by simp
next
  case (Heartbeat m seconds now)
  then show ?thesis
    using assms(4)
      bodiesOffVisibility_same [of "redis (heartbeatMessage M m seconds now w)" "redis w" M]
    by (simp add: heartbeatMessage_def callHeartbeatMessage_def heartbeat_lua_strings)
next
  case (RequeueVisible now)
  then show ?thesis
    using assms(4) bodiesOffVisibility_same [OF requeueLoop_strings]
    by (simp add: requeueVisibleMessages_def)
qed

lemma perform_deadline:
  assumes "\<forall>env. envSharedQueueKey (keys M) env \<noteq> MESSAGE_VISIBILITY_TIMEOUT_QUEUE"
    and "\<forall>env q ck. queueKey (keys M) env q ck \<noteq> MESSAGE_VISIBILITY_TIMEOUT_QUEUE"
    and "bodiesOffVisibility M (redis w)"
    and "ZSCORE MESSAGE_VISIBILITY_TIMEOUT_QUEUE mid (redis (perform M c w)) = Some d"
  shows "ZSCORE MESSAGE_VISIBILITY_TIMEOUT_QUEUE mid (redis w) = Some d
         \<or> d \<le> calledAt c + visibilityTimeoutInMs M"
proof (cases c)
  case (Enqueue env q m dat ck now)
  then show ?thesis
    using assms(1,2,4)
    by (simp add: enqueueMessage_def Let_def callEnqueueMessage_deadline)
next
  case (DequeueInEnv env choice now)
  then show ?thesis
    using assms(1,4) dequeueFrom_deadline [of "envSharedQueueKey (keys M) env" mid M choice now w d]
    by (simp add: dequeueMessageInEnv_def)
next
  case (DequeueInSharedQueue choice now)
  have "SHARED_QUEUE \<noteq> MESSAGE_VISIBILITY_TIMEOUT_QUEUE"
    by (simp add: SHARED_QUEUE_def MESSAGE_VISIBILITY_TIMEOUT_QUEUE_def)
  from dequeueFrom_deadline [OF this, of mid M choice now w d] DequeueInSharedQueue assms(4)
  show ?thesis
    by (simp add: dequeueMessageInSharedQueue_def)
next
  case (Acknowledge m now)
  then show ?thesis
    using assms(4) acknowledgeMessage_deadline [of mid M m w d] by simp
next
  case (Replace m dat ts now)
  then show ?thesis
    using assms(4) replaceMessage_deadline [OF assms(3), of mid m dat ts now d] by simp
next
  case (Nack m retryAt now)
  then show ?thesis
    using assms(4) nackMessage_deadline [OF assms(3), of mid m retryAt now d] by simp
next
  case (Heartbeat m seconds now)
  then show ?thesis
    using assms(4)
      heartbeat_lua_deadline [of MESSAGE_VISIBILITY_TIMEOUT_QUEUE mid m
        "(case seconds of None \<Rightarrow> 30 | Some n \<Rightarrow> n) * 1000" "now + visibilityTimeoutInMs M"
        "redis w" d]
    by (simp add: heartbeatMessage_def callHeartbeatMessage_def)
next
  case (RequeueVisible now)
  then show ?thesis
    using assms(4) requeueLoop_deadline [OF assms(3), of mid now "expiredMessages now w" d]
    by (simp add: requeueVisibleMessages_def)
qed

lemma performAll_deadline:
  assumes "\<forall>env. envSharedQueueKey (keys M) env \<noteq> MESSAGE_VISIBILITY_TIMEOUT_QUEUE"
    and "\<forall>env q ck. queueKey (keys M) env q ck \<noteq> MESSAGE_VISIBILITY_TIMEOUT_QUEUE"
    and "\<forall>p p'. queue p \<noteq> MESSAGE_VISIBILITY_TIMEOUT_QUEUE
          \<and> parentQueue p \<noteq> MESSAGE_VISIBILITY_TIMEOUT_QUEUE
          \<and> parseMessagePayload M (JSON_stringify M p) = Success p'
          \<longrightarrow> queue p' \<noteq> MESSAGE_VISIBILITY_TIMEOUT_QUEUE
              \<and> parentQueue p' \<noteq> MESSAGE_VISIBILITY_TIMEOUT_QUEUE"
  shows "bodiesOffVisibility M (redis w)
     \<Longrightarrow> \<forall>d. ZSCORE MESSAGE_VISIBILITY_TIMEOUT_QUEUE mid (redis w) = Some d
              \<longrightarrow> d \<le> T + visibilityTimeoutInMs M
     \<Longrightarrow> ZSCORE MESSAGE_VISIBILITY_TIMEOUT_QUEUE mid (redis (performAll M cs w)) = Some d
     \<Longrightarrow> d \<le> fold max (map calledAt cs) T + visibilityTimeoutInMs M"
proof (induction cs arbitrary: w T)
  case Nil
  then show ?case by simp
next
  case (Cons c cs)
  have bodies: "bodiesOffVisibility M (redis (perform M c w))"
    using assms Cons.prems(1) by (rule perform_bodies)
  have step: "\<forall>d. ZSCORE MESSAGE_VISIBILITY_TIMEOUT_QUEUE mid (redis (perform M c w)) = Some d
                  \<longrightarrow> d \<le> max (calledAt c) T + visibilityTimeoutInMs M"
  proof (intro allI impI)
    fix d' assume "ZSCORE MESSAGE_VISIBILITY_TIMEOUT_QUEUE mid (redis (perform M c w)) = Some d'"
    from perform_deadline [OF assms(1,2) Cons.prems(1) this] Cons.prems(2)
    show "d' \<le> max (calledAt c) T + visibilityTimeoutInMs M" by auto
  qed
  have "ZSCORE MESSAGE_VISIBILITY_TIMEOUT_QUEUE mid (redis (performAll M cs (perform M c w))) = Some d"
    using Cons.prems(3) by simp
  then have "d \<le> fold max (map calledAt cs) (max (calledAt c) T) + visibilityTimeoutInMs M"
    using Cons.IH [of "perform M c w" "max (calledAt c) T"] bodies step by blast
  then show ?case by simp
qed

lemma callDequeueMessage_lease:
  assumes "fst (callDequeueMessage M mq pq vq cl el ol cc ec oc now w) = Inr (Some (m, sc))"
    and "pq \<noteq> vq"
  shows "ZSCORE vq m (redis (snd (callDequeueMessage M mq pq vq cl el ol cc ec oc now w)))
           = Some (now + visibilityTimeoutInMs M)"
proof -
  let ?r = "dequeueMessage_lua (lua_tonumber M) mq pq vq cl el ol cc ec oc mq
      (visibilityTimeoutInMs M) now (defaultQueueConcurrency M) (defaultEnvConcurrency M)
      (defaultOrgConcurrency M) (redis w)"
  have f: "fst ?r = Inr (Some (m, sc))"
    using assms(1) by (simp add: callDequeueMessage_def split: prod.splits)
  show ?thesis
    using assms(2)
    by (simp add: callDequeueMessage_redis dequeue_success_form [OF f] ZSCORE_def
        rebalance_zsets_other SADD_def ZADD_def ZREM_def update_conv')
qed

text \<open>
  Claim C2, as the code has it. Let the key producer make no queue key that is the key of
  the visibility queue, let the parse keep it so (it gives no such key back from the
  text of a payload that has none, as a parse that inverts \<^verbatim>\<open>JSON.stringify\<close> does),
  and let no body in the store name such a key. Let a dequeue at time \<open>t0\<close> hand out the
  message: its deadline is \<open>t0\<close> plus the visibility timeout. After any sequence of calls
  of enqueue, dequeue, acknowledge, replace, nack, heartbeat and the requeuer, the
  deadline of the message, if it has one, is at most the visibility timeout past the
  latest of \<open>t0\<close> and the times of the calls.
\<close>

theorem deadline_within_timeout_of_latest_call:
  assumes "\<forall>env. envSharedQueueKey (keys M) env \<noteq> MESSAGE_VISIBILITY_TIMEOUT_QUEUE"
    and "\<forall>env q ck. queueKey (keys M) env q ck \<noteq> MESSAGE_VISIBILITY_TIMEOUT_QUEUE"
    and "\<forall>p p'. queue p \<noteq> MESSAGE_VISIBILITY_TIMEOUT_QUEUE
          \<and> parentQueue p \<noteq> MESSAGE_VISIBILITY_TIMEOUT_QUEUE
          \<and> parseMessagePayload M (JSON_stringify M p) = Success p'
          \<longrightarrow> queue p' \<noteq> MESSAGE_VISIBILITY_TIMEOUT_QUEUE
              \<and> parentQueue p' \<noteq> MESSAGE_VISIBILITY_TIMEOUT_QUEUE"
    and "bodiesOffVisibility M (redis w)"
    and "pq \<noteq> MESSAGE_VISIBILITY_TIMEOUT_QUEUE"
    and "fst (dequeueScript M mq pq t0 w) = Inr (Some (mid, sc))"
    and "w1 = snd (dequeueScript M mq pq t0 w)"
  shows "ZSCORE MESSAGE_VISIBILITY_TIMEOUT_QUEUE mid (redis w1) = Some (t0 + visibilityTimeoutInMs M)
       \<and> (\<forall>d. ZSCORE MESSAGE_VISIBILITY_TIMEOUT_QUEUE mid (redis (performAll M cs w1)) = Some d
              \<longrightarrow> d \<le> Max (set (t0 # map calledAt cs)) + visibilityTimeoutInMs M)"
proof -
  have lease: "ZSCORE MESSAGE_VISIBILITY_TIMEOUT_QUEUE mid (redis w1)
                 = Some (t0 + visibilityTimeoutInMs M)"
    using callDequeueMessage_lease [OF assms(6,5)] assms(7) by simp
  have bodies: "bodiesOffVisibility M (redis w1)"
    using assms(4,7) bodiesOffVisibility_same [OF callDequeueMessage_strings] by blast
  have "\<forall>d. ZSCORE MESSAGE_VISIBILITY_TIMEOUT_QUEUE mid (redis w1) = Some d
                 \<longrightarrow> d \<le> t0 + visibilityTimeoutInMs M"
    using lease by simp
  then have "d \<le> fold max (map calledAt cs) t0 + visibilityTimeoutInMs M"
    if "ZSCORE MESSAGE_VISIBILITY_TIMEOUT_QUEUE mid (redis (performAll M cs w1)) = Some d" for d
    using performAll_deadline [OF assms(1,2,3) bodies, of mid t0 cs d] that by blast
  moreover have "Max (set (t0 # map calledAt cs)) = fold max (map calledAt cs) t0"
    by (rule Max.set_eq_fold)
  ultimately show ?thesis
    using lease by simp
qed

theorem deadline_within_timeout_of_latest_call_witness:
  "fst (dequeueScript demo ''queue:env1:tasks'' ''env:env1:sharedQueue'' 150 enqueued)
     = Inr (Some (''a'', 100))
   \<and> ZSCORE MESSAGE_VISIBILITY_TIMEOUT_QUEUE ''a'' (redis leased) = Some 300150
   \<and> ZSCORE MESSAGE_VISIBILITY_TIMEOUT_QUEUE ''a''
       (redis (performAll demo
                 [Heartbeat ''a'' (Some 1000) 200000, Heartbeat ''a'' (Some 1000) 400000] leased))
     = Some 700000
   \<and> (700000::int) \<le> Max (set [150, 200000, 400000]) + visibilityTimeoutInMs demo"
proof -
  let ?cs = "[Heartbeat ''a'' (Some 1000) 200000, Heartbeat ''a'' (Some 1000) 400000]
             :: (string, string) operation list"
  have k1: "\<forall>env. envSharedQueueKey (keys demo) env \<noteq> MESSAGE_VISIBILITY_TIMEOUT_QUEUE"
    and k2: "\<forall>env q ck. queueKey (keys demo) env q ck \<noteq> MESSAGE_VISIBILITY_TIMEOUT_QUEUE"
    by (simp_all add: demo_def demoMarQS_def demoKeys_def MESSAGE_VISIBILITY_TIMEOUT_QUEUE_def)
  have parsed: "queue p \<noteq> MESSAGE_VISIBILITY_TIMEOUT_QUEUE
            \<and> parentQueue p \<noteq> MESSAGE_VISIBILITY_TIMEOUT_QUEUE"
    if "parseMessagePayload demo raw = Success p" for raw p
  proof -
    have "demoParse [payloadA] raw = Success p"
      using that by (simp add: demo_def demoMarQS_def)
    then have "p = payloadA"
      by (cases "demoStringify payloadA = raw") (simp_all add: demoParse_def split: if_splits)
    then show ?thesis
      by (simp add: payloadA_def MESSAGE_VISIBILITY_TIMEOUT_QUEUE_def)
  qed
  then have k3: "\<forall>p p'. queue p \<noteq> MESSAGE_VISIBILITY_TIMEOUT_QUEUE
          \<and> parentQueue p \<noteq> MESSAGE_VISIBILITY_TIMEOUT_QUEUE
          \<and> parseMessagePayload demo (JSON_stringify demo p) = Success p'
          \<longrightarrow> queue p' \<noteq> MESSAGE_VISIBILITY_TIMEOUT_QUEUE
              \<and> parentQueue p' \<noteq> MESSAGE_VISIBILITY_TIMEOUT_QUEUE"
    by blast
  have bodies: "bodiesOffVisibility demo (redis enqueued)"
    unfolding bodiesOffVisibility_def using parsed by blast
  have pq: "''env:env1:sharedQueue'' \<noteq> MESSAGE_VISIBILITY_TIMEOUT_QUEUE"
    by (simp add: MESSAGE_VISIBILITY_TIMEOUT_QUEUE_def)
  have key: "envSharedQueueKey (keys demo) ''env1'' = ''env:env1:sharedQueue''"
    by (simp add: broker_eval)
  have w1: "leased = snd (dequeueScript demo ''queue:env1:tasks'' ''env:env1:sharedQueue'' 150 enqueued)"
    using dequeueFrom_world [of "''queue:env1:tasks''" demo "''env:env1:sharedQueue''" 150 enqueued]
    by (simp add: leased_def dequeueMessageInEnv_def key)
  have after: "ZSCORE MESSAGE_VISIBILITY_TIMEOUT_QUEUE ''a'' (redis (performAll demo ?cs leased))
      = Some 700000"
    by (simp add: heartbeatMessage_def callHeartbeatMessage_def leased_redis demo_def
      demoMarQS_def visibilityTimeoutInMs_def MESSAGE_VISIBILITY_TIMEOUT_QUEUE_def
      heartbeatMessage_lua_def scoreOrZero_def ZSCORE_def ZADD_def)
  note bound = deadline_within_timeout_of_latest_call
      [OF k1 k2 k3 bodies pq dequeue_enqueued w1, of ?cs]
  have lease: "ZSCORE MESSAGE_VISIBILITY_TIMEOUT_QUEUE ''a'' (redis leased) = Some 300150"
    using bound by (simp add: demo_def demoMarQS_def visibilityTimeoutInMs_def)
  have "700000 \<le> Max (set (150 # map calledAt ?cs)) + visibilityTimeoutInMs demo"
    using bound after by blast
  then have "(700000::int) \<le> Max (set [150, 200000, 400000]) + visibilityTimeoutInMs demo"
    by simp
  then show ?thesis
    using dequeue_enqueued lease after by blast
qed

text \<open>
  The claim as the specification states it fails: the dequeue at 150 leases \<open>a\<close> until
  300150, and two heartbeats, at 200000 and at 400000, each made before the deadline of
  the moment, move the deadline to 700000, which is past 300150 plus the visibility
  timeout of 300000.
\<close>

theorem heartbeats_pass_original_lease_plus_timeout:
  "ZSCORE MESSAGE_VISIBILITY_TIMEOUT_QUEUE ''a'' (redis leased) = Some 300150
   \<and> ZSCORE MESSAGE_VISIBILITY_TIMEOUT_QUEUE ''a''
       (redis (heartbeatMessage demo ''a'' (Some 1000) 200000 leased)) = Some 500000
   \<and> ZSCORE MESSAGE_VISIBILITY_TIMEOUT_QUEUE ''a''
       (redis (performAll demo
                 [Heartbeat ''a'' (Some 1000) 200000, Heartbeat ''a'' (Some 1000) 400000] leased))
     = Some 700000
   \<and> \<not> (700000 \<le> 300150 + visibilityTimeoutInMs demo)"
  by (simp add: heartbeatMessage_def callHeartbeatMessage_def leased_redis demo_def
      demoMarQS_def visibilityTimeoutInMs_def MESSAGE_VISIBILITY_TIMEOUT_QUEUE_def
      heartbeatMessage_lua_def scoreOrZero_def ZSCORE_def ZADD_def)

end
